theory Spec2Isabelle
  imports Main "HOL-Library.Word"
begin

unbundle bit_operations_syntax

section \<open>Machine types and error numbers\<close>

type_synonym u8 = "8 word"
type_synonym u16 = "16 word"
type_synonym u32 = "32 word"
type_synonym u64 = "64 word"

text \<open>
  A C \<open>int\<close> is a 32-bit word read in two's complement: \<open>ret < 0\<close> is
  \<open>ret <s 0\<close>, and \<open>if (ret)\<close> is \<open>ret \<noteq> 0\<close>.
\<close>

type_synonym cint = "32 word"

text \<open>
  Modelled from the spec: the error kinds. The specification names \<open>Timeout\<close> and
  \<open>InvalidArgument\<close> / \<open>InvalidResponse\<close>; the code returns \<open>-ETIMEDOUT\<close> for the first
  and \<open>-EINVAL\<close> for the other two. The numbers come from the errno headers of the
  kernel, outside the two source files modelled here; they are given their Linux values.
  Apart from the worked examples, the proofs use only that both are positive.
\<close>

definition EINVAL :: cint where
  "EINVAL = 22"

definition ETIMEDOUT :: cint where
  "ETIMEDOUT = 110"

section \<open>The mailbox channel\<close>

text \<open>
  The firmware side of the mailbox is the environment of the driver. Every call of
  \<open>mhdp_readx_poll_timeout\<close> ends in one of two ways, decided by the hardware and the
  clock: the flag was seen clear (the macro yields 0) or the deadline passed with the
  flag still set (the macro yields \<open>-ETIMEDOUT\<close>). The device state lists the outcomes
  of the polls still to come, one entry per poll: for the empty flag together with the
  32-bit value that the following read of \<open>MAILBOX0_RD_DATA\<close> returns, and for the full
  flag. A list that has run out stands for a flag that never clears again. The bytes
  written to \<open>MAILBOX0_WR_DATA\<close> are recorded in order.
\<close>

datatype rx_poll = Rx_Data u32 | Rx_Empty

datatype tx_poll = Tx_Ready | Tx_Full

record cdns_mhdp_device =
  rx_polls :: "rx_poll list"
  tx_polls :: "tx_poll list"
  wr_data :: "u8 list"
  link_rate :: u32
  link_num_lanes :: u32

definition cdns_mhdp_mailbox_read :: "cdns_mhdp_device \<Rightarrow> cint \<times> cdns_mhdp_device" where
  "cdns_mhdp_mailbox_read s =
     (case rx_polls s of
        [] \<Rightarrow> (- ETIMEDOUT, s)
      | Rx_Empty # ps \<Rightarrow> (- ETIMEDOUT, s\<lparr>rx_polls := ps\<rparr>)
      | Rx_Data v # ps \<Rightarrow> (v AND 0xff, s\<lparr>rx_polls := ps\<rparr>))"

definition cdp_dp_mailbox_write :: "cdns_mhdp_device \<Rightarrow> u8 \<Rightarrow> cint \<times> cdns_mhdp_device" where
  "cdp_dp_mailbox_write s val =
     (case tx_polls s of
        [] \<Rightarrow> (- ETIMEDOUT, s)
      | Tx_Full # ps \<Rightarrow> (- ETIMEDOUT, s\<lparr>tx_polls := ps\<rparr>)
      | Tx_Ready # ps \<Rightarrow> (0, s\<lparr>tx_polls := ps, wr_data := wr_data s @ [val]\<rparr>))"

subsection \<open>Unaligned big-endian accessors\<close>

text \<open>
  Modelled from the spec: the 16-bit and 32-bit accessors. The driver defines
  \<open>get_unaligned_be24\<close> and \<open>put_unaligned_be24\<close> itself; the 16-bit and 32-bit ones come
  from \<open>asm/unaligned.h\<close>, outside the two source files modelled here, and are written
  after the 24-bit ones: most significant byte first, as the specification has every
  length and address on the wire (big-endian).
\<close>

definition put_unaligned_be16 :: "u16 \<Rightarrow> u8 list" where
  "put_unaligned_be16 val = [ucast (drop_bit 8 val), ucast val]"

definition get_unaligned_be16 :: "u8 list \<Rightarrow> u16" where
  "get_unaligned_be16 p = push_bit 8 (ucast (p ! 0)) OR ucast (p ! 1)"

definition put_unaligned_be24 :: "u32 \<Rightarrow> u8 list" where
  "put_unaligned_be24 val = [ucast (drop_bit 16 val), ucast (drop_bit 8 val), ucast val]"

definition get_unaligned_be24 :: "u8 list \<Rightarrow> u32" where
  "get_unaligned_be24 p =
     push_bit 16 (ucast (p ! 0)) OR push_bit 8 (ucast (p ! 1)) OR ucast (p ! 2)"

definition put_unaligned_be32 :: "u32 \<Rightarrow> u8 list" where
  "put_unaligned_be32 val =
     [ucast (drop_bit 24 val), ucast (drop_bit 16 val), ucast (drop_bit 8 val), ucast val]"

definition get_unaligned_be32 :: "u8 list \<Rightarrow> u32" where
  "get_unaligned_be32 p =
     push_bit 24 (ucast (p ! 0)) OR push_bit 16 (ucast (p ! 1)) OR
     push_bit 8 (ucast (p ! 2)) OR ucast (p ! 3)"

subsection \<open>Receiving\<close>

text \<open>
  The loop \<open>for (i = 0; i < n; i++) { ret = read(); if (ret < 0) return ret; buff[i] = ret; }\<close>
  of \<open>cdns_mhdp_mailbox_validate_receive\<close> (over its header) and of
  \<open>cdns_mhdp_mailbox_read_receive\<close>: the first argument counts the iterations left,
  the second is \<open>i\<close>. A result that is not negative means the loop ran to its end.
\<close>

fun mailbox_read_loop ::
  "nat \<Rightarrow> nat \<Rightarrow> u8 list \<Rightarrow> cdns_mhdp_device \<Rightarrow> cint \<times> u8 list \<times> cdns_mhdp_device" where
  "mailbox_read_loop 0 i buff s = (0, buff, s)"
| "mailbox_read_loop (Suc n) i buff s =
     (case cdns_mhdp_mailbox_read s of
        (ret, s') \<Rightarrow>
          if ret <s 0 then (ret, buff, s')
          else mailbox_read_loop n (Suc i) (buff[i := ucast ret]) s')"

text \<open>
  The draining loop \<open>for (i = 0; i < mbox_size; i++) if (read() < 0) break;\<close>.
\<close>

fun mailbox_drain_loop :: "nat \<Rightarrow> cdns_mhdp_device \<Rightarrow> cdns_mhdp_device" where
  "mailbox_drain_loop 0 s = s"
| "mailbox_drain_loop (Suc n) s =
     (case cdns_mhdp_mailbox_read s of
        (ret, s') \<Rightarrow> if ret <s 0 then s' else mailbox_drain_loop n s')"

definition cdns_mhdp_mailbox_validate_receive ::
  "cdns_mhdp_device \<Rightarrow> u8 \<Rightarrow> u8 \<Rightarrow> u16 \<Rightarrow> cint \<times> cdns_mhdp_device" where
  "cdns_mhdp_mailbox_validate_receive s module_id opcode req_size =
     (case mailbox_read_loop 4 0 [0, 0, 0, 0] s of
        (ret, header, s1) \<Rightarrow>
          if ret <s 0 then (ret, s1)
          else
            let mbox_size = (ucast (get_unaligned_be16 (drop 2 header)) :: u32) in
            if opcode \<noteq> header ! 0 \<or> module_id \<noteq> header ! 1 \<or> ucast req_size \<noteq> mbox_size
            then (- EINVAL, mailbox_drain_loop (unat mbox_size) s1)
            else (0, s1))"

text \<open>
  The caller's buffer is a list; the model writes no byte past its end, where the C code
  would write out of bounds.
\<close>

definition cdns_mhdp_mailbox_read_receive ::
  "cdns_mhdp_device \<Rightarrow> u8 list \<Rightarrow> u16 \<Rightarrow> cint \<times> u8 list \<times> cdns_mhdp_device" where
  "cdns_mhdp_mailbox_read_receive s buff buff_size = mailbox_read_loop (unat buff_size) 0 buff s"

subsection \<open>Sending\<close>

text \<open>
  The loop \<open>for (...) { ret = cdp_dp_mailbox_write(mhdp, b[i]); if (ret) return ret; }\<close>
  over the bytes to write.
\<close>

fun mailbox_write_loop :: "u8 list \<Rightarrow> cdns_mhdp_device \<Rightarrow> cint \<times> cdns_mhdp_device" where
  "mailbox_write_loop [] s = (0, s)"
| "mailbox_write_loop (b # bs) s =
     (case cdp_dp_mailbox_write s b of
        (ret, s') \<Rightarrow> if ret \<noteq> 0 then (ret, s') else mailbox_write_loop bs s')"

text \<open>
  The message is the list of bytes at \<open>message\<close>; every caller passes its length as
  \<open>size\<close> (here \<open>sz\<close>). The model reads no byte past the end of the list.
\<close>

definition cdns_mhdp_mailbox_send ::
  "cdns_mhdp_device \<Rightarrow> u8 \<Rightarrow> u8 \<Rightarrow> u16 \<Rightarrow> u8 list \<Rightarrow> cint \<times> cdns_mhdp_device" where
  "cdns_mhdp_mailbox_send s module_id opcode sz message =
     (let header = [opcode, module_id] @ put_unaligned_be16 sz in
      case mailbox_write_loop header s of
        (ret, s1) \<Rightarrow>
          if ret \<noteq> 0 then (ret, s1)
          else mailbox_write_loop (take (unat sz) message) s1)"

section \<open>The command layer\<close>

text \<open>
  The functions below take module identifiers, opcodes and other constants from the
  header \<open>cdns-mhdp-common.h\<close> and from the DRM helpers, which lie outside the two
  source files modelled here. They are parameters, collected in one record;
  \<open>drm_dp_bw_code_to_link_rate\<close> is the DRM helper of that name.
\<close>

record cdns_mhdp_common_h =
  MB_MODULE_ID_GENERAL :: u8
  MB_MODULE_ID_DP_TX :: u8
  GENERAL_MAIN_CONTROL :: u8
  GENERAL_READ_REGISTER :: u8
  DPTX_GET_EDID :: u8
  DPTX_READ_DPCD :: u8
  DPTX_TRAINING_CONTROL :: u8
  DPTX_READ_EVENT :: u8
  DPTX_READ_LINK_STAT :: u8
  DPTX_ADJUST_LT :: u8
  FW_ACTIVE :: u8
  FW_STANDBY :: u8
  LINK_TRAINING_RUN :: u8
  EQ_PHASE_FINISHED :: u32
  DP_LANE0_1_STATUS :: u32
  TU_SIZE :: u8
  drm_dp_bw_code_to_link_rate :: "u8 \<Rightarrow> u32"

text \<open>
  Local arrays that the C code leaves uninitialised and fills completely before it reads
  them (\<open>header\<close>, \<open>resp\<close>, \<open>reg\<close>, \<open>event\<close>, \<open>status\<close>, \<open>hdr\<close>) start as zeros here.
\<close>

definition cdns_mhdp_reg_read ::
  "cdns_mhdp_common_h \<Rightarrow> cdns_mhdp_device \<Rightarrow> u32 \<Rightarrow> cint \<times> cdns_mhdp_device" where
  "cdns_mhdp_reg_read k s addr =
     (if addr = 0 then (- EINVAL, s)
      else
        let msg = put_unaligned_be32 addr in
        case cdns_mhdp_mailbox_send s (MB_MODULE_ID_GENERAL k) (GENERAL_READ_REGISTER k) 4 msg of
          (ret, s1) \<Rightarrow>
            if ret \<noteq> 0 then (ret, s1)
            else
              case cdns_mhdp_mailbox_validate_receive s1 (MB_MODULE_ID_GENERAL k)
                     (GENERAL_READ_REGISTER k) 8 of
                (ret, s2) \<Rightarrow>
                  if ret \<noteq> 0 then (ret, s2)
                  else
                    case cdns_mhdp_mailbox_read_receive s2 (replicate 8 0) 8 of
                      (ret, resp, s3) \<Rightarrow>
                        if ret \<noteq> 0 then (ret, s3)
                        else if take 4 msg \<noteq> take 4 resp then (- EINVAL, s3)
                        else (get_unaligned_be32 (drop 4 resp), s3))"

definition cdns_mhdp_set_firmware_active ::
  "cdns_mhdp_common_h \<Rightarrow> cdns_mhdp_device \<Rightarrow> bool \<Rightarrow> cint \<times> cdns_mhdp_device" where
  "cdns_mhdp_set_firmware_active k s enable =
     (let msg = [GENERAL_MAIN_CONTROL k, MB_MODULE_ID_GENERAL k, 0, 1,
                 if enable then FW_ACTIVE k else FW_STANDBY k] in
      case mailbox_write_loop msg s of
        (ret, s1) \<Rightarrow>
          if ret \<noteq> 0 then (ret, s1)
          else
            case mailbox_read_loop 5 0 msg s1 of
              (ret, msg', s2) \<Rightarrow> if ret <s 0 then (ret, s2) else (0, s2))"

text \<open>
  The loop of \<open>cdns_mhdp_get_edid_block\<close>: the first argument counts the iterations left
  (\<open>4 - i\<close>), \<open>ret\<close> and \<open>reg\<close> are carried from one iteration to the next. \<open>block\<close> is an
  \<open>unsigned int\<close>, \<open>length\<close> a \<open>size_t\<close> (here \<open>len\<close>); \<open>continue\<close> is the recursive call,
  \<open>break\<close> and the end of the loop return.
\<close>

fun get_edid_block_loop ::
  "cdns_mhdp_common_h \<Rightarrow> nat \<Rightarrow> cint \<Rightarrow> u8 list \<Rightarrow> u8 list \<Rightarrow> u32 \<Rightarrow> u64 \<Rightarrow>
   cdns_mhdp_device \<Rightarrow> cint \<times> u8 list \<times> cdns_mhdp_device" where
  "get_edid_block_loop k 0 ret reg edid block len s = (ret, edid, s)"
| "get_edid_block_loop k (Suc n) ret reg edid block len s =
     (let msg = [ucast (block div 2), ucast (block mod 2)] in
      case cdns_mhdp_mailbox_send s (MB_MODULE_ID_DP_TX k) (DPTX_GET_EDID k) 2 msg of
        (ret, s1) \<Rightarrow>
          if ret \<noteq> 0 then get_edid_block_loop k n ret reg edid block len s1
          else
            case cdns_mhdp_mailbox_validate_receive s1 (MB_MODULE_ID_DP_TX k) (DPTX_GET_EDID k)
                   (ucast (2 + len)) of
              (ret, s2) \<Rightarrow>
                if ret \<noteq> 0 then get_edid_block_loop k n ret reg edid block len s2
                else
                  case cdns_mhdp_mailbox_read_receive s2 reg 2 of
                    (ret, reg', s3) \<Rightarrow>
                      if ret \<noteq> 0 then get_edid_block_loop k n ret reg' edid block len s3
                      else
                        case cdns_mhdp_mailbox_read_receive s3 edid (ucast len) of
                          (ret, edid', s4) \<Rightarrow>
                            if ret \<noteq> 0 then get_edid_block_loop k n ret reg' edid' block len s4
                            else if ucast (reg' ! 0) = len \<and> ucast (reg' ! 1) = block div 2
                            then (ret, edid', s4)
                            else get_edid_block_loop k n ret reg' edid' block len s4)"

text \<open>
  \<open>ret\<close> is not initialised before the loop; the loop body runs at least once and
  assigns it before any use, so its start value (here 0) is never seen.
\<close>

definition cdns_mhdp_get_edid_block ::
  "cdns_mhdp_common_h \<Rightarrow> cdns_mhdp_device \<Rightarrow> u8 list \<Rightarrow> u32 \<Rightarrow> u64 \<Rightarrow>
   cint \<times> u8 list \<times> cdns_mhdp_device" where
  "cdns_mhdp_get_edid_block k s edid block len = get_edid_block_loop k 4 0 [0, 0] edid block len s"

subsection \<open>Link training\<close>

text \<open>
  The loop \<open>while (time_before(jiffies, timeout)) { ... }\<close> of \<open>cdns_mhdp_training_start\<close>.
  The clock belongs to the environment: the list gives the results of the successive tests
  \<open>time_before(jiffies, timeout)\<close>, and a list that has run out stands for a deadline that
  has passed.
\<close>

fun training_start_loop ::
  "cdns_mhdp_common_h \<Rightarrow> bool list \<Rightarrow> cdns_mhdp_device \<Rightarrow> cint \<times> cdns_mhdp_device" where
  "training_start_loop k [] s = (- ETIMEDOUT, s)"
| "training_start_loop k (before # js) s =
     (if \<not> before then (- ETIMEDOUT, s)
      else
        case cdns_mhdp_mailbox_send s (MB_MODULE_ID_DP_TX k) (DPTX_READ_EVENT k) 0 [] of
          (ret, s1) \<Rightarrow>
            if ret \<noteq> 0 then (ret, s1)
            else
              case cdns_mhdp_mailbox_validate_receive s1 (MB_MODULE_ID_DP_TX k)
                     (DPTX_READ_EVENT k) 2 of
                (ret, s2) \<Rightarrow>
                  if ret \<noteq> 0 then (ret, s2)
                  else
                    case cdns_mhdp_mailbox_read_receive s2 [0, 0] 2 of
                      (ret, event, s3) \<Rightarrow>
                        if ret \<noteq> 0 then (ret, s3)
                        else if ucast (event ! 1) AND EQ_PHASE_FINISHED k \<noteq> 0 then (0, s3)
                        else training_start_loop k js s3)"

definition cdns_mhdp_training_start ::
  "cdns_mhdp_common_h \<Rightarrow> bool list \<Rightarrow> cdns_mhdp_device \<Rightarrow> cint \<times> cdns_mhdp_device" where
  "cdns_mhdp_training_start k jiffies s =
     (case cdns_mhdp_mailbox_send s (MB_MODULE_ID_DP_TX k) (DPTX_TRAINING_CONTROL k) 1
             [LINK_TRAINING_RUN k] of
        (ret, s1) \<Rightarrow> if ret \<noteq> 0 then (ret, s1) else training_start_loop k jiffies s1)"

definition cdns_mhdp_get_training_status ::
  "cdns_mhdp_common_h \<Rightarrow> cdns_mhdp_device \<Rightarrow> cint \<times> cdns_mhdp_device" where
  "cdns_mhdp_get_training_status k s =
     (case cdns_mhdp_mailbox_send s (MB_MODULE_ID_DP_TX k) (DPTX_READ_LINK_STAT k) 0 [] of
        (ret, s1) \<Rightarrow>
          if ret \<noteq> 0 then (ret, s1)
          else
            case cdns_mhdp_mailbox_validate_receive s1 (MB_MODULE_ID_DP_TX k)
                   (DPTX_READ_LINK_STAT k) 10 of
              (ret, s2) \<Rightarrow>
                if ret \<noteq> 0 then (ret, s2)
                else
                  case cdns_mhdp_mailbox_read_receive s2 (replicate 10 0) 10 of
                    (ret, status, s3) \<Rightarrow>
                      if ret \<noteq> 0 then (ret, s3)
                      else (ret, s3\<lparr>link_rate := drm_dp_bw_code_to_link_rate k (status ! 0),
                                    link_num_lanes := ucast (status ! 1)\<rparr>))"

definition cdns_mhdp_train_link ::
  "cdns_mhdp_common_h \<Rightarrow> bool list \<Rightarrow> cdns_mhdp_device \<Rightarrow> cint \<times> cdns_mhdp_device" where
  "cdns_mhdp_train_link k jiffies s =
     (case cdns_mhdp_training_start k jiffies s of
        (ret, s1) \<Rightarrow>
          if ret \<noteq> 0 then (ret, s1)
          else
            case cdns_mhdp_get_training_status k s1 of
              (ret, s2) \<Rightarrow> if ret \<noteq> 0 then (ret, s2) else (ret, s2))"

subsection \<open>Adjusting link training\<close>

text \<open>
  \<open>memcpy(dst + off, src, n)\<close> on lists; the model copies no byte from past the end of
  \<open>src\<close>.
\<close>

definition memcpy_at :: "u8 list \<Rightarrow> nat \<Rightarrow> u8 list \<Rightarrow> nat \<Rightarrow> u8 list" where
  "memcpy_at dst off src n = take off dst @ take n src @ drop (off + n) dst"

text \<open>
  The local array \<open>payload[7]\<close> is sent whole, although only its first \<open>3 + nlanes\<close> bytes
  are assigned: \<open>payload_init\<close> is its content on entry. \<open>dpcd\<close> is the caller's buffer,
  returned as the call leaves it.
\<close>

definition cdns_mhdp_adjust_lt ::
  "cdns_mhdp_common_h \<Rightarrow> cdns_mhdp_device \<Rightarrow> u8 list \<Rightarrow> u8 \<Rightarrow> u16 \<Rightarrow> u8 list \<Rightarrow> u8 list \<Rightarrow>
   cint \<times> u8 list \<times> cdns_mhdp_device" where
  "cdns_mhdp_adjust_lt k s payload_init nlanes udelay lanes_data dpcd =
     (if nlanes \<noteq> 4 \<and> nlanes \<noteq> 2 \<and> nlanes \<noteq> 1 then (- EINVAL, dpcd, s)
      else
        let payload1 = payload_init[0 := nlanes];
            payload2 = memcpy_at payload1 1 (put_unaligned_be16 udelay) 2;
            payload = memcpy_at payload2 3 lanes_data (unat nlanes) in
        case cdns_mhdp_mailbox_send s (MB_MODULE_ID_DP_TX k) (DPTX_ADJUST_LT k) 7 payload of
          (ret, s1) \<Rightarrow>
            if ret \<noteq> 0 then (ret, dpcd, s1)
            else
              case cdns_mhdp_mailbox_validate_receive s1 (MB_MODULE_ID_DP_TX k)
                     (DPTX_READ_DPCD k) (5 + 6) of
                (ret, s2) \<Rightarrow>
                  if ret \<noteq> 0 then (ret, dpcd, s2)
                  else
                    case cdns_mhdp_mailbox_read_receive s2 (replicate 5 0) 5 of
                      (ret, hdr, s3) \<Rightarrow>
                        if ret \<noteq> 0 then (ret, dpcd, s3)
                        else if get_unaligned_be24 (drop 2 hdr) \<noteq> DP_LANE0_1_STATUS k
                        then (ret, dpcd, s3)
                        else cdns_mhdp_mailbox_read_receive s3 dpcd 6)"

section \<open>Video configuration: the transfer-unit search\<close>

datatype tu_result = Tu_Found u8 u64 u32 | Tu_Error cint | Tu_Divide_Error

text \<open>
  The \<open>do { ... } while (...)\<close> loop of \<open>cdns_mhdp_config_video\<close>. \<open>tu_size_reg\<close> is a
  \<open>u8\<close>, \<open>symbol\<close> a \<open>u64\<close>, \<open>rem\<close> and the divisor of the first \<open>do_div\<close> are \<open>u32\<close>,
  \<open>mode->clock\<close> is an \<open>int\<close>; the subtraction \<open>tu_size_reg - symbol\<close> and its comparison
  with 4 are unsigned 64-bit. \<open>Tu_Found\<close> carries \<open>tu_size_reg\<close>, \<open>symbol\<close> and \<open>rem\<close> at
  the exit of the loop, \<open>Tu_Error\<close> the value of \<open>ret\<close> at \<open>goto err_config_video\<close>, which
  the function returns. \<open>do_div\<close> by zero has no defined result: \<open>Tu_Divide_Error\<close>.
\<close>

function config_video_tu_loop :: "u8 \<Rightarrow> cint \<Rightarrow> u8 \<Rightarrow> u32 \<Rightarrow> u32 \<Rightarrow> tu_result" where
  "config_video_tu_loop tu_size_reg clock bit_per_pix num_lanes link_rate_k =
     (let tu = tu_size_reg + 2;
          symbol0 = (ucast tu * scast clock * ucast bit_per_pix :: u64);
          divisor = (num_lanes * link_rate_k * 8 :: u32)
      in if divisor = 0 then Tu_Divide_Error
         else
           let symbol1 = symbol0 div ucast divisor;
               rem = (ucast (symbol1 mod 1000) :: u32);
               symbol = symbol1 div 1000
           in if tu > 64 then Tu_Error (- EINVAL)
              else if symbol \<le> 1 \<or> ucast tu - symbol < 4 \<or> rem > 850 \<or> rem < 100
              then config_video_tu_loop tu clock bit_per_pix num_lanes link_rate_k
              else Tu_Found tu symbol rem)"
  by pat_completeness auto
termination
proof (relation "measure (\<lambda>(tu, _). if 254 \<le> unat tu then 100 else 66 - unat tu)")
  show "wf (measure (\<lambda>(tu :: u8, _ :: cint \<times> u8 \<times> u32 \<times> u32).
              if 254 \<le> unat tu then 100 else 66 - unat tu))"
    by simp
next
  fix tu_size_reg x :: u8 and clock :: cint and bit_per_pix :: u8 and num_lanes link_rate_k :: u32
  assume x: "x = tu_size_reg + 2" and le: "\<not> 64 < x"
  have u: "unat x = (unat tu_size_reg + 2) mod 256"
    unfolding x by (simp add: unat_word_ariths)
  have le': "unat x \<le> 64"
    using le by (simp add: word_less_nat_alt)
  have b: "unat tu_size_reg < 256"
    using unsigned_less [of tu_size_reg, where 'a = nat] by simp
  have "(if 254 \<le> unat x then 100 else 66 - unat x)
          < (if 254 \<le> unat tu_size_reg then (100::nat) else 66 - unat tu_size_reg)"
  proof (cases "254 \<le> unat tu_size_reg")
    case True
    with u b le' show ?thesis by simp
  next
    case False
    then have "unat x = unat tu_size_reg + 2" using u by simp
    with le' False show ?thesis by simp
  qed
  then show "((x, clock, bit_per_pix, num_lanes, link_rate_k),
              (tu_size_reg, clock, bit_per_pix, num_lanes, link_rate_k))
             \<in> measure (\<lambda>(tu, _). if 254 \<le> unat tu then 100 else 66 - unat tu)"
    by (simp only: in_measure prod.case)
qed

declare config_video_tu_loop.simps [simp del]

text \<open>
  The search as \<open>cdns_mhdp_config_video\<close> starts it: \<open>tu_size_reg = TU_SIZE\<close>,
  \<open>link_rate = mhdp->dp.link.rate / 1000\<close>, \<open>bit_per_pix\<close> from the colour format and
  depth (\<open>color_depth * 2\<close> for YCbCr 4:2:2, \<open>color_depth * 3\<close> otherwise, cut to a \<open>u8\<close>).
\<close>

definition config_video_bit_per_pix :: "bool \<Rightarrow> cint \<Rightarrow> u8" where
  "config_video_bit_per_pix is_ycbcr_4_2_2 color_depth =
     (if is_ycbcr_4_2_2 then ucast (color_depth * 2) else ucast (color_depth * 3))"

definition config_video_tu_search ::
  "cdns_mhdp_common_h \<Rightarrow> cdns_mhdp_device \<Rightarrow> cint \<Rightarrow> u8 \<Rightarrow> tu_result" where
  "config_video_tu_search k s clock bit_per_pix =
     config_video_tu_loop (TU_SIZE k) clock bit_per_pix (link_num_lanes s) (link_rate s div 1000)"

section \<open>The Layerscape Gen4 PCIe controller: reading the configuration space\<close>

definition REV_1_0 :: u8 where
  "REV_1_0 = 0x10"

definition PCIE_LUT_GCR :: u32 where
  "PCIE_LUT_GCR = 0x28"

definition PCIE_LUT_GCR_RRE :: nat where
  "PCIE_LUT_GCR_RRE = 0"

text \<open>
  \<open>struct mobiveil_pcie\<close> stands for the controller's registers behind
  \<open>csr_axi_slave_base\<close>: the LUT registers by offset, and the writes made to them through
  \<open>ls_pcie_g4_lut_writel\<close>, in order. \<open>struct ls_pcie_g4\<close> holds it together with the
  revision read at host initialisation.
\<close>

record mobiveil_pcie =
  lut_regs :: "u32 \<Rightarrow> u32"
  lut_writes :: "(u32 \<times> u32) list"

record ls_pcie_g4 =
  pci :: mobiveil_pcie
  rev :: u8

definition ls_pcie_g4_lut_writel :: "ls_pcie_g4 \<Rightarrow> u32 \<Rightarrow> u32 \<Rightarrow> ls_pcie_g4" where
  "ls_pcie_g4_lut_writel pcie off val =
     pcie\<lparr>pci := (pci pcie)\<lparr>lut_regs := (lut_regs (pci pcie))(off := val),
                              lut_writes := lut_writes (pci pcie) @ [(off, val)]\<rparr>\<rparr>"

text \<open>
  \<open>pci_generic_config_read\<close> and \<open>PCI_VENDOR_ID\<close> belong to the PCI core, outside the two
  source files modelled here: both are parameters. The generic read works on the controller's
  registers (\<open>bus->sysdata\<close>), the bus number, \<open>devfn\<close>, \<open>where\<close> and \<open>size\<close>, and yields
  its return value, the value stored through \<open>val\<close>, and the registers after the access.
\<close>

record pci_core =
  PCI_VENDOR_ID :: cint
  pci_generic_config_read ::
    "mobiveil_pcie \<Rightarrow> nat \<Rightarrow> u32 \<Rightarrow> cint \<Rightarrow> cint \<Rightarrow> cint \<times> u32 \<times> mobiveil_pcie"

definition ls_pcie_g4_read_other_conf ::
  "pci_core \<Rightarrow> ls_pcie_g4 \<Rightarrow> nat \<Rightarrow> u32 \<Rightarrow> cint \<Rightarrow> cint \<Rightarrow> cint \<times> u32 \<times> ls_pcie_g4" where
  "ls_pcie_g4_read_other_conf c pcie bus devfn whr sz =
     (let pcie1 = (if rev pcie = REV_1_0 \<and> whr = PCI_VENDOR_ID c
                   then ls_pcie_g4_lut_writel pcie PCIE_LUT_GCR (push_bit PCIE_LUT_GCR_RRE 0)
                   else pcie)
      in case pci_generic_config_read c (pci pcie1) bus devfn whr sz of
           (ret, val, regs) \<Rightarrow>
             let pcie2 = pcie1\<lparr>pci := regs\<rparr>
             in (ret, val,
                 if rev pcie2 = REV_1_0 \<and> whr = PCI_VENDOR_ID c
                 then ls_pcie_g4_lut_writel pcie2 PCIE_LUT_GCR (push_bit PCIE_LUT_GCR_RRE 1)
                 else pcie2))"

text \<open>
  A generic read for the examples: it succeeds and yields the content of the LUT register
  at the offset \<open>where\<close>, so that its result shows the registers it ran on.
\<close>

definition sample_pci_core :: pci_core where
  "sample_pci_core =
     \<lparr>PCI_VENDOR_ID = 0,
      pci_generic_config_read = (\<lambda>regs bus devfn whr sz. (0, lut_regs regs (whr + 0x28), regs))\<rparr>"

section \<open>The transfer-unit search as the specification words it\<close>

text \<open>
  The valid-symbol value of a transfer-unit size, in thousandths, over the natural numbers:
  \<open>TU * Pclk * Bpp / (Lclk * Lanes * 8)\<close> in the units of the code (the link rate divided
  by 1000). Its integer part is the quotient by 1000, its fractional remainder the rest.
\<close>

definition valid_symbol_milli :: "nat \<Rightarrow> nat \<Rightarrow> nat \<Rightarrow> nat \<Rightarrow> nat \<Rightarrow> nat" where
  "valid_symbol_milli tu clock bpp lanes rate = tu * clock * bpp div (lanes * rate * 8)"

text \<open>
  The acceptance test as the specification states it: integer part above 1, margin
  \<open>tu_size - integer_part\<close> at least 4, remainder strictly between 100 and 850.
\<close>

definition tu_accepted_strict :: "nat \<Rightarrow> nat \<Rightarrow> nat \<Rightarrow> nat \<Rightarrow> nat \<Rightarrow> bool" where
  "tu_accepted_strict tu clock bpp lanes rate \<longleftrightarrow>
     (let vs = valid_symbol_milli tu clock bpp lanes rate
      in 1 < vs div 1000 \<and> 4 \<le> int tu - int (vs div 1000) \<and>
         100 < vs mod 1000 \<and> vs mod 1000 < 850)"

text \<open>
  The same test with the bounds of the remainder included, as the comment in the code has
  it (a size is refused when the remainder is above 850 or below 100).
\<close>

definition tu_accepted :: "nat \<Rightarrow> nat \<Rightarrow> nat \<Rightarrow> nat \<Rightarrow> nat \<Rightarrow> bool" where
  "tu_accepted tu clock bpp lanes rate \<longleftrightarrow>
     (let vs = valid_symbol_milli tu clock bpp lanes rate
      in 1 < vs div 1000 \<and> 4 \<le> int tu - int (vs div 1000) \<and>
         100 \<le> vs mod 1000 \<and> vs mod 1000 \<le> 850)"

section \<open>An instance of the constants\<close>

text \<open>
  One choice of values for the constants of the header, used where a theorem is applied
  to a concrete exchange. The theorems themselves hold for every choice.
\<close>

definition sample_common_h :: cdns_mhdp_common_h where
  "sample_common_h =
     \<lparr>MB_MODULE_ID_GENERAL = 0x0a, MB_MODULE_ID_DP_TX = 0x01, GENERAL_MAIN_CONTROL = 0x01,
      GENERAL_READ_REGISTER = 0x07, DPTX_GET_EDID = 0x02, DPTX_READ_DPCD = 0x03,
      DPTX_TRAINING_CONTROL = 0x09, DPTX_READ_EVENT = 0x0a, DPTX_READ_LINK_STAT = 0x0b,
      DPTX_ADJUST_LT = 0x12, FW_ACTIVE = 0x01, FW_STANDBY = 0x00, LINK_TRAINING_RUN = 0x02,
      EQ_PHASE_FINISHED = 0x02, DP_LANE0_1_STATUS = 0x202, TU_SIZE = 30,
      drm_dp_bw_code_to_link_rate = (\<lambda>bw. ucast bw * 27000)\<rparr>"

section \<open>Facts about the mailbox primitives\<close>

lemma ETIMEDOUT_nonzero: "ETIMEDOUT \<noteq> 0"
  by (simp add: ETIMEDOUT_def)

lemma EINVAL_nonzero: "EINVAL \<noteq> 0"
  by (simp add: EINVAL_def)

lemma mailbox_write_loop_append:
  "mailbox_write_loop (as @ bs) s =
     (case mailbox_write_loop as s of
        (ret, s1) \<Rightarrow> if ret \<noteq> 0 then (ret, s1) else mailbox_write_loop bs s1)"
  by (induction as arbitrary: s) (auto split: prod.splits)

text \<open>
  What a run of byte writes does, in terms of the number \<open>n\<close> of polls of the full flag
  that succeed before the first one that times out.
\<close>

lemma mailbox_write_loop_char:
  "mailbox_write_loop bs s =
     (let n = length (takeWhile (\<lambda>p. p = Tx_Ready) (tx_polls s)) in
      if length bs \<le> n
      then (0, s\<lparr>tx_polls := drop (length bs) (tx_polls s), wr_data := wr_data s @ bs\<rparr>)
      else (- ETIMEDOUT, s\<lparr>tx_polls := drop (Suc n) (tx_polls s),
                             wr_data := wr_data s @ take n bs\<rparr>))"
proof (induction bs arbitrary: s)
  case Nil
  show ?case by simp
next
  case (Cons b bs)
  show ?case
  proof (cases "tx_polls s")
    case Nil
    then show ?thesis
      by (simp add: cdp_dp_mailbox_write_def ETIMEDOUT_nonzero)
  next
    case (Cons p ps)
    show ?thesis
    proof (cases p)
      case Tx_Ready
      with Cons show ?thesis
        by (simp add: cdp_dp_mailbox_write_def Cons.IH Let_def)
    next
      case Tx_Full
      with Cons show ?thesis
        by (simp add: cdp_dp_mailbox_write_def ETIMEDOUT_nonzero)
    qed
  qed
qed

section \<open>Sending a frame\<close>

text \<open>
  Claim C6. For every module, opcode, size and message, \<open>cdns_mhdp_mailbox_send\<close> writes
  the frame made of the four header bytes opcode, module, high byte and low byte of the
  size, followed by the payload bytes in order. Every byte written takes one poll of the
  full flag. With \<open>n\<close> the number of polls that succeed before the first that times out:
  if the frame has at most \<open>n\<close> bytes the whole frame is appended to the bytes written and
  the result is 0; otherwise the result is the error of the failed write, exactly the first
  \<open>n\<close> bytes of the frame have been appended, they stay written, and nothing is written
  after the failure.
\<close>

theorem mailbox_send_frame:
  "cdns_mhdp_mailbox_send s module_id opcode sz message =
     (let frame = [opcode, module_id, ucast (drop_bit 8 sz), ucast sz] @ take (unat sz) message;
          n = length (takeWhile (\<lambda>p. p = Tx_Ready) (tx_polls s))
      in if length frame \<le> n
         then (0, s\<lparr>tx_polls := drop (length frame) (tx_polls s),
                     wr_data := wr_data s @ frame\<rparr>)
         else (- ETIMEDOUT, s\<lparr>tx_polls := drop (Suc n) (tx_polls s),
                                wr_data := wr_data s @ take n frame\<rparr>))"
proof -
  have "cdns_mhdp_mailbox_send s module_id opcode sz message =
          mailbox_write_loop
            ([opcode, module_id, ucast (drop_bit 8 sz), ucast sz] @ take (unat sz) message) s"
    unfolding cdns_mhdp_mailbox_send_def Let_def put_unaligned_be16_def
    using mailbox_write_loop_append
            [of "[opcode, module_id, ucast (drop_bit 8 sz), ucast sz]" "take (unat sz) message" s]
    by simp
  then show ?thesis
    by (simp only: mailbox_write_loop_char Let_def)
qed

text \<open>
  A send of three payload bytes into a mailbox that takes five bytes and then stays full:
  the header and the first payload byte are written, the call fails with \<open>-ETIMEDOUT\<close>.
\<close>

theorem mailbox_send_frame_witness:
  "cdns_mhdp_mailbox_send
     \<lparr>rx_polls = [],
      tx_polls = [Tx_Ready, Tx_Ready, Tx_Ready, Tx_Ready, Tx_Ready, Tx_Full, Tx_Ready],
      wr_data = [], link_rate = 0, link_num_lanes = 0\<rparr> 0x01 0x02 0x0003 [0xaa, 0xbb, 0xcc]
   = (- ETIMEDOUT,
      \<lparr>rx_polls = [], tx_polls = [Tx_Ready], wr_data = [0x02, 0x01, 0x00, 0x03, 0xaa],
       link_rate = 0, link_num_lanes = 0\<rparr>)"
  by (simp add: mailbox_send_frame)

section \<open>Facts about reading\<close>

text \<open>
  A byte read from the mailbox is never negative, so only a timeout is; the loops that read
  into a buffer deliver the low bytes of the values of the data register, in order.
\<close>

lemma and_ff_not_negative: "\<not> ((v :: u32) AND 0xff) <s 0"
proof -
  have "(v AND 0xff) \<le> 0xff" by (rule word_and_le1)
  then have le: "uint (v AND 0xff) \<le> 255" by (simp add: word_le_def)
  have ge: "- (2 ^ 31) \<le> uint (v AND 0xff)"
    by (rule order_trans [OF _ unsigned_greater_eq]) simp
  have "signed_take_bit 31 (uint (v AND 0xff)) = uint (v AND 0xff)"
    by (rule signed_take_bit_int_eq_self [OF ge]) (use le in simp)
  then have "sint (v AND 0xff) = uint (v AND 0xff)"
    by (simp add: sint_uint)
  then show ?thesis by (simp add: word_sless_alt)
qed

lemma ucast_and_ff: "(ucast ((v :: u32) AND 0xff) :: u8) = ucast v"
proof -
  have "(ucast (v AND mask 8) :: u8) = ucast v"
    by (rule bit_word_eqI) (simp add: bit_ucast_iff bit_and_iff bit_mask_iff)
  then show ?thesis by (simp add: mask_eq_exp_minus_1)
qed

lemma neg_ETIMEDOUT_negative: "- ETIMEDOUT <s 0"
  by (simp add: ETIMEDOUT_def word_sless_alt)

lemma mailbox_read_data:
  "rx_polls s = Rx_Data v # ps \<Longrightarrow>
   cdns_mhdp_mailbox_read s = (v AND 0xff, s\<lparr>rx_polls := ps\<rparr>)"
  by (simp add: cdns_mhdp_mailbox_read_def)

lemma mailbox_read_timeout:
  "rx_polls s = [] \<or> (\<exists>ps. rx_polls s = Rx_Empty # ps) \<Longrightarrow>
   cdns_mhdp_mailbox_read s = (- ETIMEDOUT, s\<lparr>rx_polls := tl (rx_polls s)\<rparr>)"
  by (auto simp add: cdns_mhdp_mailbox_read_def)

lemma mailbox_read_loop_data_aux:
  "rx_polls s = map Rx_Data vs @ rest \<Longrightarrow> i + length vs \<le> length buff \<Longrightarrow>
   mailbox_read_loop (length vs) i buff s =
     (0, take i buff @ map ucast vs @ drop (i + length vs) buff, s\<lparr>rx_polls := rest\<rparr>)"
proof (induction vs arbitrary: i buff s)
  case Nil
  then show ?case by simp
next
  case (Cons v vs)
  let ?s' = "s\<lparr>rx_polls := map Rx_Data vs @ rest\<rparr>"
  let ?b' = "buff[i := ucast v]"
  have rd: "cdns_mhdp_mailbox_read s = (v AND 0xff, ?s')"
    using Cons.prems(1) by (simp add: mailbox_read_data)
  have i: "i < length buff" using Cons.prems(2) by simp
  have IH: "mailbox_read_loop (length vs) (Suc i) ?b' ?s' =
       (0, take (Suc i) ?b' @ map ucast vs @ drop (Suc i + length vs) ?b', ?s'\<lparr>rx_polls := rest\<rparr>)"
    by (rule Cons.IH) (use Cons.prems(2) in simp_all)
  have t: "take (Suc i) ?b' = take i buff @ [ucast v]"
    using i by (simp add: upd_conv_take_nth_drop)
  have d: "drop (Suc i + length vs) ?b' = drop (i + length (v # vs)) buff"
    by simp
  show ?case
    by (simp add: rd and_ff_not_negative ucast_and_ff IH t d del: take_Suc_conv_app_nth)
qed

lemma mailbox_read_loop_data:
  "rx_polls s = map Rx_Data vs @ rest \<Longrightarrow> n = length vs \<Longrightarrow> i + n \<le> length buff \<Longrightarrow>
   mailbox_read_loop n i buff s =
     (0, take i buff @ map ucast vs @ drop (i + n) buff, s\<lparr>rx_polls := rest\<rparr>)"
  using mailbox_read_loop_data_aux by blast

lemma ucast_u16_u32_eq: "(ucast (a :: u16) :: u32) = ucast (b :: u16) \<longleftrightarrow> a = b"
proof
  assume "(ucast a :: u32) = ucast b"
  then have "(ucast (ucast a :: u32) :: u16) = ucast (ucast b :: u32)" by simp
  then show "a = b" by (simp add: ucast_up_ucast_id is_up)
qed simp

lemma unat_ucast_u16_u32: "unat (ucast (a :: u16) :: u32) = unat a"
proof -
  have "unat a < 2 ^ 16" using unsigned_less [of a, where 'a = nat] by simp
  then have "unat a < 2 ^ 32" by simp
  then show ?thesis by (simp add: unsigned_ucast_eq take_bit_nat_eq_self)
qed

lemma validate_receive_read_header:
  assumes "rx_polls s = Rx_Data v0 # Rx_Data v1 # Rx_Data v2 # Rx_Data v3 # rest"
  shows "mailbox_read_loop 4 0 [0, 0, 0, 0] s =
           (0, [ucast v0, ucast v1, ucast v2, ucast v3], s\<lparr>rx_polls := rest\<rparr>)"
proof -
  have "mailbox_read_loop 4 0 [0, 0, 0, 0] s =
          (0, take 0 [0, 0, 0, 0] @ map ucast [v0, v1, v2, v3] @ drop (0 + 4) [0, 0, 0, 0],
           s\<lparr>rx_polls := rest\<rparr>)"
    by (rule mailbox_read_loop_data) (use assms in simp_all)
  then show ?thesis by (simp del: mailbox_read_loop.simps)
qed

section \<open>Exchanges that succeed\<close>

lemma mailbox_write_loop_ready:
  assumes "tx_polls s = replicate n Tx_Ready @ trest" and "n = length bs"
  shows "mailbox_write_loop bs s = (0, s\<lparr>tx_polls := trest, wr_data := wr_data s @ bs\<rparr>)"
proof -
  have "takeWhile (\<lambda>p. p = Tx_Ready) (tx_polls s) =
          replicate n Tx_Ready @ takeWhile (\<lambda>p. p = Tx_Ready) trest"
    unfolding assms(1) by (rule takeWhile_append2) simp
  then have "length bs \<le> length (takeWhile (\<lambda>p. p = Tx_Ready) (tx_polls s))"
    using assms(2) by simp
  then show ?thesis
    using assms by (simp add: mailbox_write_loop_char Let_def)
qed

lemma mailbox_send_ready:
  assumes "tx_polls s = replicate n Tx_Ready @ trest" and "n = 4 + length message"
    and "unat sz = length message"
  shows "cdns_mhdp_mailbox_send s module_id opcode sz message =
           (0, s\<lparr>tx_polls := trest,
                  wr_data := wr_data s @ [opcode, module_id, ucast (drop_bit 8 sz), ucast sz] @ message\<rparr>)"
proof -
  have "cdns_mhdp_mailbox_send s module_id opcode sz message =
          mailbox_write_loop ([opcode, module_id, ucast (drop_bit 8 sz), ucast sz] @ message) s"
    unfolding cdns_mhdp_mailbox_send_def Let_def put_unaligned_be16_def
    using mailbox_write_loop_append
            [of "[opcode, module_id, ucast (drop_bit 8 sz), ucast sz]" "take (unat sz) message" s]
          assms(3)
    by simp
  also have "\<dots> = (0, s\<lparr>tx_polls := trest,
      wr_data := wr_data s @ [opcode, module_id, ucast (drop_bit 8 sz), ucast sz] @ message\<rparr>)"
    by (rule mailbox_write_loop_ready [OF assms(1)]) (use assms(2) in simp)
  finally show ?thesis .
qed

lemma validate_receive_accepts:
  assumes rx: "rx_polls s = map Rx_Data vh @ rest"
    and hdr: "map ucast vh = [opcode, module_id, hi, lo]"
    and sz: "req_size = push_bit 8 (ucast hi) OR ucast lo"
  shows "cdns_mhdp_mailbox_validate_receive s module_id opcode req_size =
           (0, s\<lparr>rx_polls := rest\<rparr>)"
proof -
  from hdr obtain v0 v1 v2 v3 where vh: "vh = [v0, v1, v2, v3]"
    by (auto simp: map_eq_Cons_conv)
  have rd: "mailbox_read_loop 4 0 [0, 0, 0, 0] s =
              (0, [opcode, module_id, hi, lo], s\<lparr>rx_polls := rest\<rparr>)"
    using validate_receive_read_header [of s v0 v1 v2 v3 rest] rx hdr vh by simp
  show ?thesis
    unfolding cdns_mhdp_mailbox_validate_receive_def rd
    by (simp add: get_unaligned_be16_def sz word_sless_alt Let_def)
qed

lemma mailbox_read_receive_data:
  assumes "rx_polls s = map Rx_Data vs @ rest" and "unat sz = length vs"
    and "length buff = length vs"
  shows "cdns_mhdp_mailbox_read_receive s buff sz = (0, map ucast vs, s\<lparr>rx_polls := rest\<rparr>)"
  unfolding cdns_mhdp_mailbox_read_receive_def
  using mailbox_read_loop_data [OF assms(1), of "unat sz" 0 buff] assms(2,3) by simp

lemma get_put_unaligned_be32: "get_unaligned_be32 (put_unaligned_be32 v) = v"
proof -
  have "push_bit 24 (ucast (ucast (drop_bit 24 v) :: u8)) OR
        push_bit 16 (ucast (ucast (drop_bit 16 v) :: u8)) OR
        push_bit 8 (ucast (ucast (drop_bit 8 v) :: u8)) OR ucast (ucast v :: u8) = v"
  proof (rule bit_word_eqI)
    fix n :: nat
    assume "n < LENGTH(32)"
    then consider "n < 8" | "8 \<le> n" "n < 16" | "16 \<le> n" "n < 24" | "24 \<le> n" "n < 32"
      by fastforce
    then show "bit (push_bit 24 (ucast (ucast (drop_bit 24 v) :: u8)) OR
        push_bit 16 (ucast (ucast (drop_bit 16 v) :: u8)) OR
        push_bit 8 (ucast (ucast (drop_bit 8 v) :: u8)) OR (ucast (ucast v :: u8) :: u32)) n = bit v n"
      by cases (auto simp add: bit_or_iff bit_push_bit_iff bit_ucast_iff bit_drop_bit_eq)
  qed
  then show ?thesis
    by (simp add: get_unaligned_be32_def put_unaligned_be32_def)
qed


lemma length_put_unaligned_be32: "length (put_unaligned_be32 v) = 4"
  by (simp add: put_unaligned_be32_def)

lemma reg_read_exchange:
  assumes addr: "addr \<noteq> 0"
    and tx: "tx_polls s = replicate 8 Tx_Ready @ trest"
    and rx: "rx_polls s = map Rx_Data vs @ rest"
    and bytes: "map ucast vs =
                  [GENERAL_READ_REGISTER k, MB_MODULE_ID_GENERAL k, 0, 8] @ echo @ val"
    and len: "length echo = 4" "length val = 4"
  shows "cdns_mhdp_reg_read k s addr =
           (if echo = put_unaligned_be32 addr then get_unaligned_be32 val else - EINVAL,
            s\<lparr>rx_polls := rest, tx_polls := trest,
               wr_data := wr_data s @
                 [GENERAL_READ_REGISTER k, MB_MODULE_ID_GENERAL k, 0, 4] @
                 put_unaligned_be32 addr\<rparr>)"
proof -
  let ?op = "GENERAL_READ_REGISTER k" and ?mid = "MB_MODULE_ID_GENERAL k"
  let ?msg = "put_unaligned_be32 addr"
  define vh where "vh = take 4 vs"
  define vr where "vr = drop 4 vs"
  have vs: "vs = vh @ vr" by (simp add: vh_def vr_def)
  have "(map ucast vh :: u8 list) = take 4 (map ucast vs)" by (simp add: vh_def take_map)
  then have vh: "map ucast vh = [?op, ?mid, 0, 8]" by (simp add: bytes)
  have "(map ucast vr :: u8 list) = drop 4 (map ucast vs)" by (simp add: vr_def drop_map)
  then have vr: "map ucast vr = echo @ val" by (simp add: bytes)
  have lmsg: "length ?msg = 4" by (rule length_put_unaligned_be32)
  define s1 where
    "s1 = s\<lparr>tx_polls := trest, wr_data := wr_data s @ [?op, ?mid, 0, 4] @ ?msg\<rparr>"
  define s2 where "s2 = s1\<lparr>rx_polls := map Rx_Data vr @ rest\<rparr>"
  define s3 where "s3 = s2\<lparr>rx_polls := rest\<rparr>"
  have send: "cdns_mhdp_mailbox_send s ?mid ?op 4 ?msg = (0, s1)"
    unfolding s1_def using mailbox_send_ready [OF tx, of ?msg 4 ?mid ?op] lmsg by simp
  have "rx_polls s1 = map Rx_Data vh @ map Rx_Data vr @ rest"
    by (simp add: s1_def rx vs)
  then have val: "cdns_mhdp_mailbox_validate_receive s1 ?mid ?op 8 = (0, s2)"
    unfolding s2_def
    by (rule validate_receive_accepts [where hi = 0 and lo = 8]) (simp_all add: vh)
  have "length (map ucast vr :: u8 list) = 8" unfolding vr using len by simp
  then have lvr: "length vr = 8" by simp
  have "rx_polls s2 = map Rx_Data vr @ rest" by (simp add: s2_def)
  then have "cdns_mhdp_mailbox_read_receive s2 (replicate 8 0) 8 = (0, map ucast vr, s3)"
    unfolding s3_def by (rule mailbox_read_receive_data) (simp_all add: lvr)
  then have rd: "cdns_mhdp_mailbox_read_receive s2 (replicate 8 0) 8 = (0, echo @ val, s3)"
    by (simp only: vr)
  have s3: "s3 = s\<lparr>rx_polls := rest, tx_polls := trest,
               wr_data := wr_data s @ [?op, ?mid, 0, 4] @ ?msg\<rparr>"
    by (simp add: s3_def s2_def s1_def)
  have "cdns_mhdp_reg_read k s addr =
          (if echo = ?msg then get_unaligned_be32 val else - EINVAL, s3)"
    unfolding cdns_mhdp_reg_read_def Let_def
    using addr len lmsg by (auto simp add: send val rd)
  then show ?thesis by (simp only: s3)
qed

section \<open>Reading a register\<close>

text \<open>
  Claim C5. \<open>cdns_mhdp_reg_read\<close> with address 0 returns \<open>-EINVAL\<close> and leaves the
  device as it was: no byte is written, no flag is polled. For a nonzero address, when
  the request is sent and the response passes \<open>cdns_mhdp_mailbox_validate_receive\<close>
  (header: read-register opcode, general module, length 8) and its eight bytes arrive,
  the first four bytes are compared with the big-endian address of the request: the
  result is the big-endian value of the last four bytes if they are equal, and
  \<open>-EINVAL\<close> if they differ.
\<close>

theorem reg_read_checks_echo:
  "cdns_mhdp_reg_read k s 0 = (- EINVAL, s) \<and>
   (addr \<noteq> 0 \<and> tx_polls s = replicate 8 Tx_Ready @ trest \<and>
    rx_polls s = map Rx_Data vs @ rest \<and>
    map ucast vs = [GENERAL_READ_REGISTER k, MB_MODULE_ID_GENERAL k, 0, 8] @ echo @ val \<and>
    length echo = 4 \<and> length val = 4 \<longrightarrow>
    cdns_mhdp_reg_read k s addr =
      (if echo = put_unaligned_be32 addr then get_unaligned_be32 val else - EINVAL,
       s\<lparr>rx_polls := rest, tx_polls := trest,
          wr_data := wr_data s @
            [GENERAL_READ_REGISTER k, MB_MODULE_ID_GENERAL k, 0, 4] @ put_unaligned_be32 addr\<rparr>))"
  using reg_read_exchange [of addr s trest vs rest k echo val]
  by (simp add: cdns_mhdp_reg_read_def)

text \<open>
  Address 0; a read of \<open>0x2004\<close> answered with the same address and \<open>0xdeadbeef\<close>; the
  same read answered with the address \<open>0x2008\<close>.
\<close>

theorem reg_read_checks_echo_witness:
  "cdns_mhdp_reg_read sample_common_h
     \<lparr>rx_polls = [], tx_polls = [Tx_Ready], wr_data = [], link_rate = 0, link_num_lanes = 0\<rparr> 0
   = (- EINVAL,
      \<lparr>rx_polls = [], tx_polls = [Tx_Ready], wr_data = [], link_rate = 0, link_num_lanes = 0\<rparr>) \<and>
   cdns_mhdp_reg_read sample_common_h
     \<lparr>rx_polls = map Rx_Data [0x07, 0x0a, 0x00, 0x08, 0x00, 0x00, 0x20, 0x04,
                                 0xde, 0xad, 0xbe, 0xef],
      tx_polls = replicate 8 Tx_Ready @ [Tx_Full], wr_data = [],
      link_rate = 0, link_num_lanes = 0\<rparr> 0x2004
   = (0xdeadbeef,
      \<lparr>rx_polls = [], tx_polls = [Tx_Full],
       wr_data = [0x07, 0x0a, 0x00, 0x04, 0x00, 0x00, 0x20, 0x04],
       link_rate = 0, link_num_lanes = 0\<rparr>) \<and>
   cdns_mhdp_reg_read sample_common_h
     \<lparr>rx_polls = map Rx_Data [0x07, 0x0a, 0x00, 0x08, 0x00, 0x00, 0x20, 0x08,
                                 0xde, 0xad, 0xbe, 0xef],
      tx_polls = replicate 8 Tx_Ready @ [Tx_Full], wr_data = [],
      link_rate = 0, link_num_lanes = 0\<rparr> 0x2004
   = (- EINVAL,
      \<lparr>rx_polls = [], tx_polls = [Tx_Full],
       wr_data = [0x07, 0x0a, 0x00, 0x04, 0x00, 0x00, 0x20, 0x04],
       link_rate = 0, link_num_lanes = 0\<rparr>)"
  using reg_read_checks_echo
          [where k = sample_common_h and s =
              "\<lparr>rx_polls = [], tx_polls = [Tx_Ready], wr_data = [], link_rate = 0,
                link_num_lanes = 0\<rparr>"]
        reg_read_checks_echo
          [where k = sample_common_h and s =
              "\<lparr>rx_polls = map Rx_Data [0x07, 0x0a, 0x00, 0x08, 0x00, 0x00, 0x20, 0x04,
                                          0xde, 0xad, 0xbe, 0xef],
                tx_polls = replicate 8 Tx_Ready @ [Tx_Full], wr_data = [],
                link_rate = 0, link_num_lanes = 0\<rparr>"
              and addr = "0x2004" and trest = "[Tx_Full]" and rest = "[]"
              and vs = "[0x07, 0x0a, 0x00, 0x08, 0x00, 0x00, 0x20, 0x04, 0xde, 0xad, 0xbe, 0xef]"
              and echo = "[0x00, 0x00, 0x20, 0x04]" and val = "[0xde, 0xad, 0xbe, 0xef]"]
        reg_read_checks_echo
          [where k = sample_common_h and s =
              "\<lparr>rx_polls = map Rx_Data [0x07, 0x0a, 0x00, 0x08, 0x00, 0x00, 0x20, 0x08,
                                          0xde, 0xad, 0xbe, 0xef],
                tx_polls = replicate 8 Tx_Ready @ [Tx_Full], wr_data = [],
                link_rate = 0, link_num_lanes = 0\<rparr>"
              and addr = "0x2004" and trest = "[Tx_Full]" and rest = "[]"
              and vs = "[0x07, 0x0a, 0x00, 0x08, 0x00, 0x00, 0x20, 0x08, 0xde, 0xad, 0xbe, 0xef]"
              and echo = "[0x00, 0x00, 0x20, 0x08]" and val = "[0xde, 0xad, 0xbe, 0xef]"]
  by (simp add: sample_common_h_def put_unaligned_be32_def get_unaligned_be32_def)

text \<open>
  Claim C9. There are successful register reads (the response passes the validation and
  echoes the address) whose return value is negative: the 32-bit value of the register is
  returned as an \<open>int\<close>, so every value with bit 31 set comes back negative, as an error
  code does.
\<close>

theorem reg_read_value_negative:
  assumes "addr \<noteq> 0"
    and "tx_polls s = replicate 8 Tx_Ready @ trest"
    and "rx_polls s = map Rx_Data vs @ rest"
    and "map ucast vs = [GENERAL_READ_REGISTER k, MB_MODULE_ID_GENERAL k, 0, 8] @
                          put_unaligned_be32 addr @ put_unaligned_be32 v"
    and "bit v 31"
  shows "fst (cdns_mhdp_reg_read k s addr) = v \<and> fst (cdns_mhdp_reg_read k s addr) <s 0"
proof -
  have "cdns_mhdp_reg_read k s addr =
          (v, s\<lparr>rx_polls := rest, tx_polls := trest,
                wr_data := wr_data s @
                  [GENERAL_READ_REGISTER k, MB_MODULE_ID_GENERAL k, 0, 4] @
                  put_unaligned_be32 addr\<rparr>)"
    using reg_read_exchange [OF assms(1-4) length_put_unaligned_be32 length_put_unaligned_be32]
    by (simp add: get_put_unaligned_be32)
  moreover have "v <s 0"
    using assms(5) bit_last_iff [of v] by (simp add: word_sless_alt)
  ultimately show ?thesis by simp
qed

text \<open>
  The register holds \<open>0xffffffea\<close>: the successful read returns \<open>-EINVAL\<close> itself.
\<close>

theorem reg_read_value_negative_witness:
  "fst (cdns_mhdp_reg_read sample_common_h
          \<lparr>rx_polls = map Rx_Data [0x07, 0x0a, 0x00, 0x08, 0x00, 0x00, 0x20, 0x04,
                                      0xff, 0xff, 0xff, 0xea],
           tx_polls = replicate 8 Tx_Ready, wr_data = [],
           link_rate = 0, link_num_lanes = 0\<rparr> 0x2004) = - EINVAL \<and>
   fst (cdns_mhdp_reg_read sample_common_h
          \<lparr>rx_polls = map Rx_Data [0x07, 0x0a, 0x00, 0x08, 0x00, 0x00, 0x20, 0x04,
                                      0xff, 0xff, 0xff, 0xea],
           tx_polls = replicate 8 Tx_Ready, wr_data = [],
           link_rate = 0, link_num_lanes = 0\<rparr> 0x2004) <s 0"
  using reg_read_value_negative
          [where k = sample_common_h and s =
              "\<lparr>rx_polls = map Rx_Data [0x07, 0x0a, 0x00, 0x08, 0x00, 0x00, 0x20, 0x04,
                                          0xff, 0xff, 0xff, 0xea],
                tx_polls = replicate 8 Tx_Ready, wr_data = [],
                link_rate = 0, link_num_lanes = 0\<rparr>"
              and addr = "0x2004" and trest = "[]" and rest = "[]" and v = "0xffffffea"
              and vs = "[0x07, 0x0a, 0x00, 0x08, 0x00, 0x00, 0x20, 0x04, 0xff, 0xff, 0xff, 0xea]"]
  by (simp add: sample_common_h_def put_unaligned_be32_def EINVAL_def word_sless_alt)

section \<open>Activating the firmware\<close>

lemma mailbox_read_loop_first_timeout:
  assumes "rx_polls s = map Rx_Data vs @ ps" and "length vs < n"
    and "ps = [] \<or> (\<exists>ps'. ps = Rx_Empty # ps')"
  shows "fst (mailbox_read_loop n i buff s) = - ETIMEDOUT \<and>
         snd (snd (mailbox_read_loop n i buff s)) = s\<lparr>rx_polls := tl ps\<rparr>"
  using assms
proof (induction vs arbitrary: n i buff s)
  case Nil
  then obtain m where n: "n = Suc m" by (cases n) auto
  have "rx_polls s = [] \<or> (\<exists>ps'. rx_polls s = Rx_Empty # ps')"
    using Nil by auto
  then have "cdns_mhdp_mailbox_read s = (- ETIMEDOUT, s\<lparr>rx_polls := tl (rx_polls s)\<rparr>)"
    by (rule mailbox_read_timeout)
  then show ?case using Nil n by (simp add: neg_ETIMEDOUT_negative)
next
  case (Cons v vs)
  then obtain m where n: "n = Suc m" by (cases n) auto
  have rd: "cdns_mhdp_mailbox_read s = (v AND 0xff, s\<lparr>rx_polls := map Rx_Data vs @ ps\<rparr>)"
    using Cons.prems(1) by (simp add: mailbox_read_data)
  have "fst (mailbox_read_loop m (Suc i) (buff[i := ucast (v AND 0xff)])
               (s\<lparr>rx_polls := map Rx_Data vs @ ps\<rparr>)) = - ETIMEDOUT \<and>
        snd (snd (mailbox_read_loop m (Suc i) (buff[i := ucast (v AND 0xff)])
               (s\<lparr>rx_polls := map Rx_Data vs @ ps\<rparr>))) =
          s\<lparr>rx_polls := map Rx_Data vs @ ps\<rparr>\<lparr>rx_polls := tl ps\<rparr>"
    by (rule Cons.IH) (use Cons.prems n in simp_all)
  then show ?case
    by (simp add: n rd and_ff_not_negative)
qed

lemma takeWhile_replicate_append:
  "P x \<Longrightarrow> takeWhile P (replicate n x @ ys) = replicate n x @ takeWhile P ys"
  by (induction n) simp_all

text \<open>
  Claim C7. \<open>cdns_mhdp_set_firmware_active\<close> writes, byte by byte through
  \<open>cdp_dp_mailbox_write\<close>, the five bytes main-control opcode, general module, 0, 1
  (the length 1, big-endian) and \<open>FW_ACTIVE\<close> or \<open>FW_STANDBY\<close>, then reads five bytes
  through \<open>cdns_mhdp_mailbox_read\<close>. Whatever the five bytes read are, the result is 0:
  nothing is compared with them. If the write of byte \<open>n\<close> times out, the bytes before
  it stay written, nothing is read and the result is that error; if one of the five reads
  times out, the result is that error.
\<close>

theorem set_firmware_active_bytes:
  "(tx_polls s = replicate 5 Tx_Ready @ trest \<and> rx_polls s = map Rx_Data vs @ rest \<and>
    length vs = 5 \<longrightarrow>
      cdns_mhdp_set_firmware_active k s enable =
        (0, s\<lparr>rx_polls := rest, tx_polls := trest,
               wr_data := wr_data s @
                 [GENERAL_MAIN_CONTROL k, MB_MODULE_ID_GENERAL k, 0, 1,
                  if enable then FW_ACTIVE k else FW_STANDBY k]\<rparr>)) \<and>
   (tx_polls s = replicate n Tx_Ready @ tps \<and> n < 5 \<and> (tps = [] \<or> (\<exists>tps'. tps = Tx_Full # tps')) \<longrightarrow>
      cdns_mhdp_set_firmware_active k s enable =
        (- ETIMEDOUT, s\<lparr>tx_polls := tl tps,
               wr_data := wr_data s @
                 take n [GENERAL_MAIN_CONTROL k, MB_MODULE_ID_GENERAL k, 0, 1,
                         if enable then FW_ACTIVE k else FW_STANDBY k]\<rparr>)) \<and>
   (tx_polls s = replicate 5 Tx_Ready @ trest \<and> rx_polls s = map Rx_Data vs @ rps \<and>
    length vs < 5 \<and> (rps = [] \<or> (\<exists>rps'. rps = Rx_Empty # rps')) \<longrightarrow>
      cdns_mhdp_set_firmware_active k s enable =
        (- ETIMEDOUT, s\<lparr>rx_polls := tl rps, tx_polls := trest,
               wr_data := wr_data s @
                 [GENERAL_MAIN_CONTROL k, MB_MODULE_ID_GENERAL k, 0, 1,
                  if enable then FW_ACTIVE k else FW_STANDBY k]\<rparr>))"
proof -
  let ?msg = "[GENERAL_MAIN_CONTROL k, MB_MODULE_ID_GENERAL k, 0, 1,
               if enable then FW_ACTIVE k else FW_STANDBY k]"
  define s1 where "s1 = s\<lparr>tx_polls := trest, wr_data := wr_data s @ ?msg\<rparr>"
  have wr: "mailbox_write_loop ?msg s = (0, s1)"
    if "tx_polls s = replicate 5 Tx_Ready @ trest"
    unfolding s1_def by (rule mailbox_write_loop_ready [OF that]) simp
  have A: "cdns_mhdp_set_firmware_active k s enable =
             (0, s\<lparr>rx_polls := rest, tx_polls := trest, wr_data := wr_data s @ ?msg\<rparr>)"
    if tx: "tx_polls s = replicate 5 Tx_Ready @ trest"
      and rx: "rx_polls s = map Rx_Data vs @ rest" and len: "length vs = 5"
  proof -
    have "rx_polls s1 = map Rx_Data vs @ rest" by (simp add: s1_def rx)
    then have "mailbox_read_loop 5 0 ?msg s1 =
                 (0, take 0 ?msg @ map ucast vs @ drop (0 + 5) ?msg, s1\<lparr>rx_polls := rest\<rparr>)"
      by (rule mailbox_read_loop_data) (simp_all add: len)
    then show ?thesis
      unfolding cdns_mhdp_set_firmware_active_def Let_def wr [OF tx]
      by (simp add: s1_def)
  qed
  have B: "cdns_mhdp_set_firmware_active k s enable =
             (- ETIMEDOUT, s\<lparr>tx_polls := tl tps, wr_data := wr_data s @ take n ?msg\<rparr>)"
    if tx: "tx_polls s = replicate n Tx_Ready @ tps" and n: "n < 5"
      and tps: "tps = [] \<or> (\<exists>tps'. tps = Tx_Full # tps')"
  proof -
    have tw: "takeWhile (\<lambda>p. p = Tx_Ready) (tx_polls s) = replicate n Tx_Ready"
      using tx tps by (auto simp: takeWhile_replicate_append)
    have dr: "drop (Suc n) (tx_polls s) = tl tps"
      using tx tps by (auto simp: drop_Suc drop_tl [symmetric])
    have "mailbox_write_loop ?msg s =
            (- ETIMEDOUT, s\<lparr>tx_polls := tl tps, wr_data := wr_data s @ take n ?msg\<rparr>)"
      unfolding mailbox_write_loop_char Let_def tw using n dr by simp
    then show ?thesis
      unfolding cdns_mhdp_set_firmware_active_def Let_def
      by (simp add: ETIMEDOUT_nonzero)
  qed
  have C: "cdns_mhdp_set_firmware_active k s enable =
             (- ETIMEDOUT, s\<lparr>rx_polls := tl rps, tx_polls := trest,
                                wr_data := wr_data s @ ?msg\<rparr>)"
    if tx: "tx_polls s = replicate 5 Tx_Ready @ trest"
      and rx: "rx_polls s = map Rx_Data vs @ rps" and len: "length vs < 5"
      and rps: "rps = [] \<or> (\<exists>rps'. rps = Rx_Empty # rps')"
  proof -
    have "rx_polls s1 = map Rx_Data vs @ rps" by (simp add: s1_def rx)
    then have "fst (mailbox_read_loop 5 0 ?msg s1) = - ETIMEDOUT \<and>
               snd (snd (mailbox_read_loop 5 0 ?msg s1)) = s1\<lparr>rx_polls := tl rps\<rparr>"
      using len rps by (rule mailbox_read_loop_first_timeout)
    then show ?thesis
      unfolding cdns_mhdp_set_firmware_active_def Let_def wr [OF tx]
      by (auto simp add: s1_def neg_ETIMEDOUT_negative split: prod.splits)
  qed
  show ?thesis using A B C by blast
qed

text \<open>
  Enabling with five bytes of any content as acknowledgment; disabling with a mailbox
  that stays full after three bytes; disabling with an acknowledgment that stops after
  two bytes.
\<close>

theorem set_firmware_active_bytes_witness:
  "cdns_mhdp_set_firmware_active sample_common_h
     \<lparr>rx_polls = map Rx_Data [0xde, 0xad, 0xbe, 0xef, 0x55, 0x66],
      tx_polls = replicate 5 Tx_Ready @ [Tx_Full], wr_data = [],
      link_rate = 0, link_num_lanes = 0\<rparr> True
   = (0, \<lparr>rx_polls = [Rx_Data 0x66], tx_polls = [Tx_Full],
          wr_data = [0x01, 0x0a, 0x00, 0x01, 0x01], link_rate = 0, link_num_lanes = 0\<rparr>) \<and>
   cdns_mhdp_set_firmware_active sample_common_h
     \<lparr>rx_polls = map Rx_Data [0xde, 0xad, 0xbe, 0xef, 0x55, 0x66],
      tx_polls = replicate 3 Tx_Ready @ [Tx_Full, Tx_Ready], wr_data = [],
      link_rate = 0, link_num_lanes = 0\<rparr> False
   = (- ETIMEDOUT,
      \<lparr>rx_polls = map Rx_Data [0xde, 0xad, 0xbe, 0xef, 0x55, 0x66], tx_polls = [Tx_Ready],
       wr_data = [0x01, 0x0a, 0x00], link_rate = 0, link_num_lanes = 0\<rparr>) \<and>
   cdns_mhdp_set_firmware_active sample_common_h
     \<lparr>rx_polls = map Rx_Data [0xde, 0xad] @ [Rx_Empty, Rx_Data 0x01],
      tx_polls = replicate 5 Tx_Ready @ [Tx_Full], wr_data = [],
      link_rate = 0, link_num_lanes = 0\<rparr> False
   = (- ETIMEDOUT,
      \<lparr>rx_polls = [Rx_Data 0x01], tx_polls = [Tx_Full],
       wr_data = [0x01, 0x0a, 0x00, 0x01, 0x00], link_rate = 0, link_num_lanes = 0\<rparr>)"
  using set_firmware_active_bytes
          [where k = sample_common_h and enable = True and s =
              "\<lparr>rx_polls = map Rx_Data [0xde, 0xad, 0xbe, 0xef, 0x55, 0x66],
                tx_polls = replicate 5 Tx_Ready @ [Tx_Full], wr_data = [],
                link_rate = 0, link_num_lanes = 0\<rparr>"
              and trest = "[Tx_Full]" and vs = "[0xde, 0xad, 0xbe, 0xef, 0x55]"
              and rest = "[Rx_Data 0x66]"]
        set_firmware_active_bytes
          [where k = sample_common_h and enable = False and s =
              "\<lparr>rx_polls = map Rx_Data [0xde, 0xad, 0xbe, 0xef, 0x55, 0x66],
                tx_polls = replicate 3 Tx_Ready @ [Tx_Full, Tx_Ready], wr_data = [],
                link_rate = 0, link_num_lanes = 0\<rparr>"
              and n = 3 and tps = "[Tx_Full, Tx_Ready]"]
        set_firmware_active_bytes
          [where k = sample_common_h and enable = False and s =
              "\<lparr>rx_polls = map Rx_Data [0xde, 0xad] @ [Rx_Empty, Rx_Data 0x01],
                tx_polls = replicate 5 Tx_Ready @ [Tx_Full], wr_data = [],
                link_rate = 0, link_num_lanes = 0\<rparr>"
              and trest = "[Tx_Full]" and vs = "[0xde, 0xad]"
              and rps = "[Rx_Empty, Rx_Data 0x01]"]
  by (simp add: sample_common_h_def)

section \<open>Adjusting link training\<close>

lemma adjust_lt_payload:
  assumes "length payload_init = 7"
  shows "memcpy_at (memcpy_at (payload_init[0 := nlanes]) 1 (put_unaligned_be16 udelay) 2) 3
           lanes_data n =
         nlanes # put_unaligned_be16 udelay @ take n lanes_data @ drop (3 + n) payload_init"
proof -
  obtain b0 bs where p: "payload_init = b0 # bs" using assms by (cases payload_init) auto
  show ?thesis
    by (simp add: memcpy_at_def put_unaligned_be16_def p drop_Suc numeral_3_eq_3)
qed

lemma mailbox_read_receive_data_prefix:
  assumes "rx_polls s = map Rx_Data vs @ rest" and "unat sz = length vs"
    and "length vs \<le> length buff"
  shows "cdns_mhdp_mailbox_read_receive s buff sz =
           (0, map ucast vs @ drop (length vs) buff, s\<lparr>rx_polls := rest\<rparr>)"
  unfolding cdns_mhdp_mailbox_read_receive_def
  using mailbox_read_loop_data [OF assms(1), of "unat sz" 0 buff] assms(2,3) by simp

text \<open>
  Claim C10. In \<open>cdns_mhdp_adjust_lt\<close>, with a valid lane count, when the request is
  sent, the response passes the validation (DPCD-read opcode, length 11) and its first
  five bytes arrive, but the 24-bit address in them is not \<open>DP_LANE0_1_STATUS\<close>: the
  result is 0, the caller's buffer \<open>dpcd\<close> is returned as it was passed, and the polls
  after the five bytes are still to come, so the six register bytes were not read.
\<close>

theorem adjust_lt_address_mismatch:
  assumes lanes: "nlanes = 1 \<or> nlanes = 2 \<or> nlanes = 4"
    and stack: "length payload_init = 7" and data: "unat nlanes \<le> length lanes_data"
    and tx: "tx_polls s = replicate 11 Tx_Ready @ trest"
    and rx: "rx_polls s = map Rx_Data vs @ rest"
    and bytes: "map ucast vs = [DPTX_READ_DPCD k, MB_MODULE_ID_DP_TX k, 0, 11] @ hdr"
    and len: "length hdr = 5"
    and addr: "get_unaligned_be24 (drop 2 hdr) \<noteq> DP_LANE0_1_STATUS k"
  shows "cdns_mhdp_adjust_lt k s payload_init nlanes udelay lanes_data dpcd =
           (0, dpcd,
            s\<lparr>rx_polls := rest, tx_polls := trest,
               wr_data := wr_data s @ [DPTX_ADJUST_LT k, MB_MODULE_ID_DP_TX k, 0, 7] @
                 nlanes # put_unaligned_be16 udelay @ take (unat nlanes) lanes_data @
                 drop (3 + unat nlanes) payload_init\<rparr>)"
proof -
  let ?op = "DPTX_ADJUST_LT k" and ?mid = "MB_MODULE_ID_DP_TX k"
  define payload where
    "payload = nlanes # put_unaligned_be16 udelay @ take (unat nlanes) lanes_data @
                 drop (3 + unat nlanes) payload_init"
  have nl: "unat nlanes \<le> 4" using lanes by auto
  have lp: "length payload = 7"
    using stack data nl by (simp add: payload_def put_unaligned_be16_def)
  define vh where "vh = take 4 vs"
  define vr where "vr = drop 4 vs"
  have vs: "vs = vh @ vr" by (simp add: vh_def vr_def)
  have "(map ucast vh :: u8 list) = take 4 (map ucast vs)" by (simp add: vh_def take_map)
  then have vh: "map ucast vh = [DPTX_READ_DPCD k, ?mid, 0, 11]" by (simp add: bytes)
  have "(map ucast vr :: u8 list) = drop 4 (map ucast vs)" by (simp add: vr_def drop_map)
  then have vr: "map ucast vr = hdr" by (simp add: bytes)
  define s1 where "s1 = s\<lparr>tx_polls := trest, wr_data := wr_data s @ [?op, ?mid, 0, 7] @ payload\<rparr>"
  define s2 where "s2 = s1\<lparr>rx_polls := map Rx_Data vr @ rest\<rparr>"
  define s3 where "s3 = s2\<lparr>rx_polls := rest\<rparr>"
  have send: "cdns_mhdp_mailbox_send s ?mid ?op 7 payload = (0, s1)"
    unfolding s1_def using mailbox_send_ready [OF tx, of payload 7 ?mid ?op] lp by simp
  have "rx_polls s1 = map Rx_Data vh @ map Rx_Data vr @ rest"
    by (simp add: s1_def rx vs)
  then have val: "cdns_mhdp_mailbox_validate_receive s1 ?mid (DPTX_READ_DPCD k) 11 = (0, s2)"
    unfolding s2_def
    by (rule validate_receive_accepts [where hi = 0 and lo = 11]) (simp_all add: vh)
  have "length (map ucast vr :: u8 list) = 5" unfolding vr using len by simp
  then have lvr: "length vr = 5" by simp
  have "rx_polls s2 = map Rx_Data vr @ rest" by (simp add: s2_def)
  then have "cdns_mhdp_mailbox_read_receive s2 (replicate 5 0) 5 = (0, map ucast vr, s3)"
    unfolding s3_def by (rule mailbox_read_receive_data) (simp_all add: lvr)
  then have rd: "cdns_mhdp_mailbox_read_receive s2 (replicate 5 0) 5 = (0, hdr, s3)"
    by (simp only: vr)
  have s3: "s3 = s\<lparr>rx_polls := rest, tx_polls := trest,
               wr_data := wr_data s @ [?op, ?mid, 0, 7] @ payload\<rparr>"
    by (simp add: s3_def s2_def s1_def)
  have "cdns_mhdp_adjust_lt k s payload_init nlanes udelay lanes_data dpcd = (0, dpcd, s3)"
    unfolding cdns_mhdp_adjust_lt_def Let_def adjust_lt_payload [OF stack]
      payload_def [symmetric]
    using lanes addr by (auto simp add: send val rd)
  then show ?thesis by (simp only: s3 payload_def)
qed

text \<open>
  Four lanes; the response carries the address \<open>0x203\<close> where \<open>0x202\<close> is expected.
\<close>

theorem adjust_lt_address_mismatch_witness:
  "cdns_mhdp_adjust_lt sample_common_h
     \<lparr>rx_polls = map Rx_Data [0x03, 0x01, 0x00, 0x0b, 0x00, 0x06, 0x00, 0x02, 0x03,
                                 0x11, 0x11, 0x00, 0x80, 0x00, 0x00],
      tx_polls = replicate 11 Tx_Ready, wr_data = [], link_rate = 0, link_num_lanes = 0\<rparr>
     [0, 0, 0, 0, 0, 0, 0] 4 400 [1, 2, 3, 4] [9, 9, 9, 9, 9, 9]
   = (0, [9, 9, 9, 9, 9, 9],
      \<lparr>rx_polls = map Rx_Data [0x11, 0x11, 0x00, 0x80, 0x00, 0x00], tx_polls = [],
       wr_data = [0x12, 0x01, 0x00, 0x07, 0x04, 0x01, 0x90, 0x01, 0x02, 0x03, 0x04],
       link_rate = 0, link_num_lanes = 0\<rparr>)"
  using adjust_lt_address_mismatch
          [where k = sample_common_h and nlanes = 4 and udelay = 400
             and payload_init = "[0, 0, 0, 0, 0, 0, 0]" and lanes_data = "[1, 2, 3, 4]"
             and dpcd = "[9, 9, 9, 9, 9, 9]" and s =
              "\<lparr>rx_polls = map Rx_Data [0x03, 0x01, 0x00, 0x0b, 0x00, 0x06, 0x00, 0x02, 0x03,
                                          0x11, 0x11, 0x00, 0x80, 0x00, 0x00],
                tx_polls = replicate 11 Tx_Ready, wr_data = [], link_rate = 0,
                link_num_lanes = 0\<rparr>"
             and trest = "[]" and vs = "[0x03, 0x01, 0x00, 0x0b, 0x00, 0x06, 0x00, 0x02, 0x03]"
             and rest = "map Rx_Data [0x11, 0x11, 0x00, 0x80, 0x00, 0x00]"
             and hdr = "[0x00, 0x06, 0x00, 0x02, 0x03]"]
  by (simp add: sample_common_h_def get_unaligned_be24_def put_unaligned_be16_def)

section \<open>The configuration read of the PCIe controller\<close>

text \<open>
  Claim C8. In \<open>ls_pcie_g4_read_other_conf\<close>, when the revision is 1.0 and the read is
  of the vendor-ID register, the generic read runs on registers in which the general
  control register of the LUT has just been written with 0 (the reordering-enable bit,
  bit 0, is clear), and after it the register is written with 1 (the bit is set); the
  return value and the value read are those of that generic read. For every other
  revision or register the call is the generic read on the registers as they are: the
  function itself writes nothing.
\<close>

theorem read_other_conf_reordering:
  "(rev pcie = REV_1_0 \<and> whr = PCI_VENDOR_ID c \<longrightarrow>
      (\<exists>ret val regs.
         pci_generic_config_read c
           ((pci pcie)\<lparr>lut_regs := (lut_regs (pci pcie))(PCIE_LUT_GCR := 0),
                       lut_writes := lut_writes (pci pcie) @ [(PCIE_LUT_GCR, 0)]\<rparr>)
           bus devfn whr sz = (ret, val, regs) \<and>
         ls_pcie_g4_read_other_conf c pcie bus devfn whr sz =
           (ret, val,
            pcie\<lparr>pci := regs\<lparr>lut_regs := (lut_regs regs)(PCIE_LUT_GCR := 1),
                              lut_writes := lut_writes regs @ [(PCIE_LUT_GCR, 1)]\<rparr>\<rparr>)) \<and>
      \<not> bit (0 :: u32) PCIE_LUT_GCR_RRE \<and> bit (1 :: u32) PCIE_LUT_GCR_RRE) \<and>
   (\<not> (rev pcie = REV_1_0 \<and> whr = PCI_VENDOR_ID c) \<longrightarrow>
      (\<exists>ret val regs.
         pci_generic_config_read c (pci pcie) bus devfn whr sz = (ret, val, regs) \<and>
         ls_pcie_g4_read_other_conf c pcie bus devfn whr sz = (ret, val, pcie\<lparr>pci := regs\<rparr>)))"
proof (intro conjI impI)
  assume a: "rev pcie = REV_1_0 \<and> whr = PCI_VENDOR_ID c"
  let ?regs1 = "(pci pcie)\<lparr>lut_regs := (lut_regs (pci pcie))(PCIE_LUT_GCR := 0),
                       lut_writes := lut_writes (pci pcie) @ [(PCIE_LUT_GCR, 0)]\<rparr>"
  obtain ret val regs where g: "pci_generic_config_read c ?regs1 bus devfn whr sz = (ret, val, regs)"
    by (cases "pci_generic_config_read c ?regs1 bus devfn whr sz") auto
  have "ls_pcie_g4_read_other_conf c pcie bus devfn whr sz =
           (ret, val,
            pcie\<lparr>pci := regs\<lparr>lut_regs := (lut_regs regs)(PCIE_LUT_GCR := 1),
                              lut_writes := lut_writes regs @ [(PCIE_LUT_GCR, 1)]\<rparr>\<rparr>)"
    using a g
    by (simp add: ls_pcie_g4_read_other_conf_def ls_pcie_g4_lut_writel_def PCIE_LUT_GCR_RRE_def
        Let_def)
  with g show "\<exists>ret val regs.
         pci_generic_config_read c ?regs1 bus devfn whr sz = (ret, val, regs) \<and>
         ls_pcie_g4_read_other_conf c pcie bus devfn whr sz =
           (ret, val,
            pcie\<lparr>pci := regs\<lparr>lut_regs := (lut_regs regs)(PCIE_LUT_GCR := 1),
                              lut_writes := lut_writes regs @ [(PCIE_LUT_GCR, 1)]\<rparr>\<rparr>)"
    by blast
next
  show "\<not> bit (0 :: u32) PCIE_LUT_GCR_RRE" by simp
next
  show "bit (1 :: u32) PCIE_LUT_GCR_RRE" by (simp add: PCIE_LUT_GCR_RRE_def)
next
  assume a: "\<not> (rev pcie = REV_1_0 \<and> whr = PCI_VENDOR_ID c)"
  obtain ret val regs where g: "pci_generic_config_read c (pci pcie) bus devfn whr sz = (ret, val, regs)"
    by (cases "pci_generic_config_read c (pci pcie) bus devfn whr sz") auto
  have "ls_pcie_g4_read_other_conf c pcie bus devfn whr sz = (ret, val, pcie\<lparr>pci := regs\<rparr>)"
    using a g by (auto simp add: ls_pcie_g4_read_other_conf_def Let_def)
  with g show "\<exists>ret val regs.
         pci_generic_config_read c (pci pcie) bus devfn whr sz = (ret, val, regs) \<and>
         ls_pcie_g4_read_other_conf c pcie bus devfn whr sz = (ret, val, pcie\<lparr>pci := regs\<rparr>)"
    by blast
qed

text \<open>
  Revision 1.0 reading offset 0 (the sample read sees the cleared register and yields 0,
  two LUT writes are logged); revision 2.0 reading offset 0, and revision 1.0 reading
  offset 4 (no write, the read sees the registers as they were).
\<close>

theorem read_other_conf_reordering_witness:
  "ls_pcie_g4_read_other_conf sample_pci_core
     \<lparr>pci = \<lparr>lut_regs = (\<lambda>off. 0x55), lut_writes = []\<rparr>, rev = 0x10\<rparr> 1 0 0 4
   = (0, 0,
      \<lparr>pci = \<lparr>lut_regs = (\<lambda>off. 0x55)(0x28 := 1), lut_writes = [(0x28, 0), (0x28, 1)]\<rparr>,
       rev = 0x10\<rparr>) \<and>
   ls_pcie_g4_read_other_conf sample_pci_core
     \<lparr>pci = \<lparr>lut_regs = (\<lambda>off. 0x55), lut_writes = []\<rparr>, rev = 0x20\<rparr> 1 0 0 4
   = (0, 0x55, \<lparr>pci = \<lparr>lut_regs = (\<lambda>off. 0x55), lut_writes = []\<rparr>, rev = 0x20\<rparr>) \<and>
   ls_pcie_g4_read_other_conf sample_pci_core
     \<lparr>pci = \<lparr>lut_regs = (\<lambda>off. 0x55), lut_writes = []\<rparr>, rev = 0x10\<rparr> 1 0 4 4
   = (0, 0x55, \<lparr>pci = \<lparr>lut_regs = (\<lambda>off. 0x55), lut_writes = []\<rparr>, rev = 0x10\<rparr>)"
  using read_other_conf_reordering
          [where c = sample_pci_core and bus = 1 and devfn = 0 and whr = 0 and sz = 4 and pcie =
             "\<lparr>pci = \<lparr>lut_regs = (\<lambda>off. 0x55), lut_writes = []\<rparr>, rev = 0x10\<rparr>"]
        read_other_conf_reordering
          [where c = sample_pci_core and bus = 1 and devfn = 0 and whr = 0 and sz = 4 and pcie =
             "\<lparr>pci = \<lparr>lut_regs = (\<lambda>off. 0x55), lut_writes = []\<rparr>, rev = 0x20\<rparr>"]
        read_other_conf_reordering
          [where c = sample_pci_core and bus = 1 and devfn = 0 and whr = 4 and sz = 4 and pcie =
             "\<lparr>pci = \<lparr>lut_regs = (\<lambda>off. 0x55), lut_writes = []\<rparr>, rev = 0x10\<rparr>"]
  by (simp add: sample_pci_core_def REV_1_0_def PCIE_LUT_GCR_def)

section \<open>Link training\<close>

text \<open>
  No mailbox operation touches the link state, and each consumes a prefix of the polls of
  the empty flag.
\<close>

lemma mailbox_read_frame:
  "link_rate (snd (cdns_mhdp_mailbox_read s)) = link_rate s \<and>
   link_num_lanes (snd (cdns_mhdp_mailbox_read s)) = link_num_lanes s \<and>
   (\<exists>pre. rx_polls s = pre @ rx_polls (snd (cdns_mhdp_mailbox_read s)))"
  by (auto simp add: cdns_mhdp_mailbox_read_def split: list.splits rx_poll.splits)

lemma mailbox_read_loop_frame:
  "link_rate (snd (snd (mailbox_read_loop n i buff s))) = link_rate s \<and>
   link_num_lanes (snd (snd (mailbox_read_loop n i buff s))) = link_num_lanes s \<and>
   (\<exists>pre. rx_polls s = pre @ rx_polls (snd (snd (mailbox_read_loop n i buff s))))"
proof (induction n arbitrary: i buff s)
  case 0
  show ?case by simp
next
  case (Suc n)
  obtain ret s' where rd: "cdns_mhdp_mailbox_read s = (ret, s')"
    by (cases "cdns_mhdp_mailbox_read s") auto
  from mailbox_read_frame [of s] rd obtain pre where
    f: "link_rate s' = link_rate s" "link_num_lanes s' = link_num_lanes s"
       "rx_polls s = pre @ rx_polls s'"
    by auto
  show ?case
  proof (cases "ret <s 0")
    case True
    with rd f show ?thesis by simp
  next
    case False
    from Suc.IH [of "Suc i" "buff[i := ucast ret]" s'] obtain pre' where
      "link_rate (snd (snd (mailbox_read_loop n (Suc i) (buff[i := ucast ret]) s'))) = link_rate s'"
      "link_num_lanes (snd (snd (mailbox_read_loop n (Suc i) (buff[i := ucast ret]) s'))) =
         link_num_lanes s'"
      "rx_polls s' = pre' @ rx_polls (snd (snd (mailbox_read_loop n (Suc i) (buff[i := ucast ret]) s')))"
      by auto
    with rd f False show ?thesis by simp
  qed
qed

lemma mailbox_drain_loop_frame:
  "link_rate (mailbox_drain_loop n s) = link_rate s \<and>
   link_num_lanes (mailbox_drain_loop n s) = link_num_lanes s \<and>
   (\<exists>pre. rx_polls s = pre @ rx_polls (mailbox_drain_loop n s))"
proof (induction n arbitrary: s)
  case 0
  show ?case by simp
next
  case (Suc n)
  obtain ret s' where rd: "cdns_mhdp_mailbox_read s = (ret, s')"
    by (cases "cdns_mhdp_mailbox_read s") auto
  from mailbox_read_frame [of s] rd obtain pre where
    f: "link_rate s' = link_rate s" "link_num_lanes s' = link_num_lanes s"
       "rx_polls s = pre @ rx_polls s'"
    by auto
  show ?case
  proof (cases "ret <s 0")
    case True
    with rd f show ?thesis by simp
  next
    case False
    from Suc.IH [of s'] obtain pre' where
      "link_rate (mailbox_drain_loop n s') = link_rate s'"
      "link_num_lanes (mailbox_drain_loop n s') = link_num_lanes s'"
      "rx_polls s' = pre' @ rx_polls (mailbox_drain_loop n s')"
      by auto
    with rd f False show ?thesis by simp
  qed
qed

lemma validate_receive_frame:
  "link_rate (snd (cdns_mhdp_mailbox_validate_receive s m opc r)) = link_rate s \<and>
   link_num_lanes (snd (cdns_mhdp_mailbox_validate_receive s m opc r)) = link_num_lanes s \<and>
   (\<exists>pre. rx_polls s = pre @ rx_polls (snd (cdns_mhdp_mailbox_validate_receive s m opc r)))"
proof -
  obtain ret header s1 where l: "mailbox_read_loop 4 0 [0, 0, 0, 0] s = (ret, header, s1)"
    by (cases "mailbox_read_loop 4 0 [0, 0, 0, 0] s") auto
  from mailbox_read_loop_frame [of 4 0 "[0, 0, 0, 0]" s] l obtain pre where
    f: "link_rate s1 = link_rate s" "link_num_lanes s1 = link_num_lanes s"
       "rx_polls s = pre @ rx_polls s1"
    by auto
  show ?thesis
    unfolding cdns_mhdp_mailbox_validate_receive_def l
    using f mailbox_drain_loop_frame [of "unat (ucast (get_unaligned_be16 (drop 2 header)) :: u32)" s1]
    by (auto simp add: Let_def)
qed

lemma read_receive_frame:
  "link_rate (snd (snd (cdns_mhdp_mailbox_read_receive s buff sz))) = link_rate s \<and>
   link_num_lanes (snd (snd (cdns_mhdp_mailbox_read_receive s buff sz))) = link_num_lanes s \<and>
   (\<exists>pre. rx_polls s = pre @ rx_polls (snd (snd (cdns_mhdp_mailbox_read_receive s buff sz))))"
  unfolding cdns_mhdp_mailbox_read_receive_def by (rule mailbox_read_loop_frame)

lemma mailbox_write_loop_frame:
  "link_rate (snd (mailbox_write_loop bs s)) = link_rate s \<and>
   link_num_lanes (snd (mailbox_write_loop bs s)) = link_num_lanes s \<and>
   rx_polls (snd (mailbox_write_loop bs s)) = rx_polls s"
  by (simp add: mailbox_write_loop_char Let_def)

lemma mailbox_send_preserves:
  "link_rate (snd (cdns_mhdp_mailbox_send s m opc sz msg)) = link_rate s \<and>
   link_num_lanes (snd (cdns_mhdp_mailbox_send s m opc sz msg)) = link_num_lanes s \<and>
   rx_polls (snd (cdns_mhdp_mailbox_send s m opc sz msg)) = rx_polls s"
proof -
  let ?h = "[opc, m] @ put_unaligned_be16 sz"
  obtain ret s1 where w: "mailbox_write_loop ?h s = (ret, s1)"
    by (cases "mailbox_write_loop ?h s") auto
  from mailbox_write_loop_frame [of ?h s] w have
    f: "link_rate s1 = link_rate s" "link_num_lanes s1 = link_num_lanes s" "rx_polls s1 = rx_polls s"
    by auto
  show ?thesis
    unfolding cdns_mhdp_mailbox_send_def Let_def w
    using f mailbox_write_loop_frame [of "take (unat sz) msg" s1] by auto
qed


lemma read_receive_two_bytes:
  assumes "cdns_mhdp_mailbox_read_receive s [a, b] 2 = (0, event, s')"
  shows "\<exists>e0 e1. rx_polls s = Rx_Data e0 # Rx_Data e1 # rx_polls s' \<and>
                 event = [ucast e0, ucast e1]"
proof -
  have neg: "- ETIMEDOUT \<noteq> 0" by (simp add: ETIMEDOUT_nonzero)
  have two: "unat (2 :: u16) = Suc (Suc 0)" by simp
  have l: "mailbox_read_loop (Suc (Suc 0)) 0 [a, b] s = (0, event, s')"
    using assms by (simp only: cdns_mhdp_mailbox_read_receive_def two)
  obtain p0 ps0 where p0: "rx_polls s = p0 # ps0"
    using l neg
    by (cases "rx_polls s") (auto simp add: cdns_mhdp_mailbox_read_def neg_ETIMEDOUT_negative)
  obtain e0 where e0: "p0 = Rx_Data e0"
    using l neg p0
    by (cases p0) (auto simp add: cdns_mhdp_mailbox_read_def neg_ETIMEDOUT_negative)
  obtain p1 ps1 where p1: "ps0 = p1 # ps1"
    using l neg p0 e0
    by (cases ps0)
       (auto simp add: cdns_mhdp_mailbox_read_def neg_ETIMEDOUT_negative and_ff_not_negative)
  obtain e1 where e1: "p1 = Rx_Data e1"
    using l neg p0 e0 p1
    by (cases p1)
       (auto simp add: cdns_mhdp_mailbox_read_def neg_ETIMEDOUT_negative and_ff_not_negative)
  show ?thesis
    using l p0 e0 p1 e1
    by (auto simp add: cdns_mhdp_mailbox_read_def and_ff_not_negative ucast_and_ff)
qed

lemma training_start_loop_step:
  assumes "cdns_mhdp_mailbox_send s (MB_MODULE_ID_DP_TX k) (DPTX_READ_EVENT k) 0 [] = (r1, s1)"
    and "cdns_mhdp_mailbox_validate_receive s1 (MB_MODULE_ID_DP_TX k) (DPTX_READ_EVENT k) 2 =
           (r2, s2)"
    and "cdns_mhdp_mailbox_read_receive s2 [0, 0] 2 = (r3, event, s3)"
  shows "training_start_loop k (True # js) s =
           (if r1 \<noteq> 0 then (r1, s1)
            else if r2 \<noteq> 0 then (r2, s2)
            else if r3 \<noteq> 0 then (r3, s3)
            else if ucast (event ! 1) AND EQ_PHASE_FINISHED k \<noteq> 0 then (0, s3)
            else training_start_loop k js s3)"
  using assms by simp

lemma training_start_loop_frame:
  "link_rate (snd (training_start_loop k js s)) = link_rate s \<and>
   link_num_lanes (snd (training_start_loop k js s)) = link_num_lanes s \<and>
   (fst (training_start_loop k js s) = 0 \<longrightarrow>
      (\<exists>pre e0 e1. rx_polls s = pre @ Rx_Data e0 # Rx_Data e1 #
                                   rx_polls (snd (training_start_loop k js s)) \<and>
                    ucast (ucast e1 :: u8) AND EQ_PHASE_FINISHED k \<noteq> 0))"
proof (induction js arbitrary: s)
  case Nil
  show ?case by (simp add: ETIMEDOUT_nonzero)
next
  case (Cons b js)
  show ?case
  proof (cases b)
    case False
    then show ?thesis by (simp add: ETIMEDOUT_nonzero)
  next
    case True
    obtain r1 s1 where snd1:
      "cdns_mhdp_mailbox_send s (MB_MODULE_ID_DP_TX k) (DPTX_READ_EVENT k) 0 [] = (r1, s1)"
      by (cases "cdns_mhdp_mailbox_send s (MB_MODULE_ID_DP_TX k) (DPTX_READ_EVENT k) 0 []") auto
    obtain r2 s2 where val2:
      "cdns_mhdp_mailbox_validate_receive s1 (MB_MODULE_ID_DP_TX k) (DPTX_READ_EVENT k) 2 = (r2, s2)"
      by (cases "cdns_mhdp_mailbox_validate_receive s1 (MB_MODULE_ID_DP_TX k) (DPTX_READ_EVENT k) 2")
         auto
    obtain r3 event s3 where rd3: "cdns_mhdp_mailbox_read_receive s2 [0, 0] 2 = (r3, event, s3)"
      by (cases "cdns_mhdp_mailbox_read_receive s2 [0, 0] 2") auto
    note step = training_start_loop_step [OF snd1 val2 rd3, of js]
    from mailbox_send_preserves [of s "MB_MODULE_ID_DP_TX k" "DPTX_READ_EVENT k" 0 "[]"] snd1
    have f1: "link_rate s1 = link_rate s" "link_num_lanes s1 = link_num_lanes s"
      "rx_polls s1 = rx_polls s" by auto
    from validate_receive_frame [of s1 "MB_MODULE_ID_DP_TX k" "DPTX_READ_EVENT k" 2] val2
    obtain pre2 where f2: "link_rate s2 = link_rate s1" "link_num_lanes s2 = link_num_lanes s1"
      "rx_polls s1 = pre2 @ rx_polls s2" by auto
    from read_receive_frame [of s2 "[0, 0]" 2] rd3
    have f3: "link_rate s3 = link_rate s2" "link_num_lanes s3 = link_num_lanes s2" by auto
    consider (e1) "r1 \<noteq> 0" | (e2) "r1 = 0" "r2 \<noteq> 0" | (e3) "r1 = 0" "r2 = 0" "r3 \<noteq> 0"
      | (fin) "r1 = 0" "r2 = 0" "r3 = 0" "ucast (event ! 1) AND EQ_PHASE_FINISHED k \<noteq> 0"
      | (again) "r1 = 0" "r2 = 0" "r3 = 0" "ucast (event ! 1) AND EQ_PHASE_FINISHED k = 0"
      by blast
    then show ?thesis
    proof cases
      case e1
      with True step f1 show ?thesis by simp
    next
      case e2
      with True step f1 f2 show ?thesis by simp
    next
      case e3
      with True step f1 f2 f3 show ?thesis by simp
    next
      case fin
      from rd3 fin(3) obtain e0 e1 where
        ev: "rx_polls s2 = Rx_Data e0 # Rx_Data e1 # rx_polls s3" "event = [ucast e0, ucast e1]"
        using read_receive_two_bytes [of s2 0 0 event s3] by auto
      have res: "training_start_loop k (b # js) s = (0, s3)"
        using True step fin by simp
      have "rx_polls s = pre2 @ Rx_Data e0 # Rx_Data e1 # rx_polls s3"
        using f1 f2 ev by simp
      moreover have "ucast (ucast e1 :: u8) AND EQ_PHASE_FINISHED k \<noteq> 0"
        using fin(4) ev(2) by simp
      ultimately show ?thesis
        unfolding res using f1 f2 f3 by auto
    next
      case again
      have res: "training_start_loop k (b # js) s = training_start_loop k js s3"
        using True step again by simp
      from rd3 again(3) obtain e0 e1 where
        ev: "rx_polls s2 = Rx_Data e0 # Rx_Data e1 # rx_polls s3"
        using read_receive_two_bytes [of s2 0 0 event s3] by auto
      have pre: "rx_polls s = (pre2 @ [Rx_Data e0, Rx_Data e1]) @ rx_polls s3"
        using f1 f2 ev by simp
      show ?thesis
        unfolding res
        using Cons.IH [of s3] f1 f2 f3 pre
        by (metis append.assoc)
    qed
  qed
qed

lemma training_start_loop_never_finished:
  assumes flag: "\<forall>e\<in>set evs. ucast (snd e) AND EQ_PHASE_FINISHED k = 0"
    and rx: "rx_polls s = map Rx_Data vs @ rest"
    and bytes: "map ucast vs =
                  concat (map (\<lambda>e. [DPTX_READ_EVENT k, MB_MODULE_ID_DP_TX k, 0, 2, fst e, snd e]) evs)"
    and tx: "tx_polls s = replicate (4 * length evs) Tx_Ready @ trest"
    and js: "js = replicate (length evs) True @ jrest"
    and jrest: "jrest = [] \<or> (\<exists>js'. jrest = False # js')"
  shows "training_start_loop k js s =
           (- ETIMEDOUT,
            s\<lparr>rx_polls := rest, tx_polls := trest,
               wr_data := wr_data s @
                 concat (replicate (length evs) [DPTX_READ_EVENT k, MB_MODULE_ID_DP_TX k, 0, 0])\<rparr>)"
  using assms
proof (induction evs arbitrary: s vs js)
  case Nil
  then have "rx_polls s = rest" "tx_polls s = trest" by simp_all
  then have "s\<lparr>rx_polls := rest, tx_polls := trest, wr_data := wr_data s @ []\<rparr> = s" by simp
  moreover have "training_start_loop k js s = (- ETIMEDOUT, s)"
    using Nil.prems(5,6) by auto
  ultimately show ?case by simp
next
  case (Cons e evs)
  let ?op = "DPTX_READ_EVENT k" and ?mid = "MB_MODULE_ID_DP_TX k"
  let ?n = "length evs"
  define js' where "js' = replicate ?n True @ jrest"
  have js: "js = True # js'" using Cons.prems(5) by (simp add: js'_def)
  define vh where "vh = take 4 vs"
  define ve where "ve = take 2 (drop 4 vs)"
  define vr where "vr = drop 6 vs"
  have bytes: "map ucast vs = [?op, ?mid, 0, 2, fst e, snd e] @
      concat (map (\<lambda>e. [?op, ?mid, 0, 2, fst e, snd e]) evs)"
    using Cons.prems(3) by simp
  have "drop 6 vs = drop 2 (drop 4 vs)" by simp
  then have "ve @ vr = drop 4 vs"
    unfolding ve_def vr_def by (simp only: append_take_drop_id)
  then have vs: "vs = vh @ ve @ vr"
    unfolding vh_def by (simp only: append_take_drop_id)
  have "(map ucast vh :: u8 list) = take 4 (map ucast vs)" by (simp add: vh_def take_map)
  then have vh: "map ucast vh = [?op, ?mid, 0, 2]" by (simp add: bytes)
  have "(map ucast ve :: u8 list) = take 2 (drop 4 (map ucast vs))"
    by (simp add: ve_def take_map drop_map)
  then have ve: "map ucast ve = [fst e, snd e]" by (simp add: bytes)
  have "(map ucast vr :: u8 list) = drop 6 (map ucast vs)" by (simp add: vr_def drop_map)
  then have vr: "map ucast vr = concat (map (\<lambda>e. [?op, ?mid, 0, 2, fst e, snd e]) evs)"
    by (simp add: bytes)
  define s1 where "s1 = s\<lparr>tx_polls := replicate (4 * ?n) Tx_Ready @ trest,
                            wr_data := wr_data s @ [?op, ?mid, 0, 0] @ []\<rparr>"
  define s2 where "s2 = s1\<lparr>rx_polls := map Rx_Data ve @ map Rx_Data vr @ rest\<rparr>"
  define s3 where "s3 = s2\<lparr>rx_polls := map Rx_Data vr @ rest\<rparr>"
  have "tx_polls s = replicate 4 Tx_Ready @ replicate (4 * ?n) Tx_Ready @ trest"
    using Cons.prems(4) by (simp add: replicate_add [symmetric])
  then have send: "cdns_mhdp_mailbox_send s ?mid ?op 0 [] = (0, s1)"
    unfolding s1_def using mailbox_send_ready [of s 4 _ "[]" 0 ?mid ?op] by simp
  have "rx_polls s1 = map Rx_Data vh @ map Rx_Data ve @ map Rx_Data vr @ rest"
    by (simp add: s1_def Cons.prems(2) vs)
  then have val: "cdns_mhdp_mailbox_validate_receive s1 ?mid ?op 2 = (0, s2)"
    unfolding s2_def
    by (rule validate_receive_accepts [where hi = 0 and lo = 2]) (simp_all add: vh)
  have "length (map ucast ve :: u8 list) = 2" unfolding ve by simp
  then have lve: "length ve = 2" by simp
  have "rx_polls s2 = map Rx_Data ve @ map Rx_Data vr @ rest" by (simp add: s2_def)
  then have "cdns_mhdp_mailbox_read_receive s2 [0, 0] 2 = (0, map ucast ve, s3)"
    unfolding s3_def by (rule mailbox_read_receive_data) (simp_all add: lve)
  then have rd: "cdns_mhdp_mailbox_read_receive s2 [0, 0] 2 = (0, [fst e, snd e], s3)"
    by (simp only: ve)
  have clear: "ucast (snd e) AND EQ_PHASE_FINISHED k = 0"
    using Cons.prems(1) by simp
  have step: "training_start_loop k js s = training_start_loop k js' s3"
    unfolding js using training_start_loop_step [OF send val rd, of js'] clear by simp
  have IH: "training_start_loop k js' s3 =
      (- ETIMEDOUT,
       s3\<lparr>rx_polls := rest, tx_polls := trest,
          wr_data := wr_data s3 @ concat (replicate ?n [?op, ?mid, 0, 0])\<rparr>)"
  proof (rule Cons.IH [of s3 vr js'])
    show "\<forall>e\<in>set evs. ucast (snd e) AND EQ_PHASE_FINISHED k = 0"
      using Cons.prems(1) by simp
    show "rx_polls s3 = map Rx_Data vr @ rest" by (simp add: s3_def)
    show "map ucast vr = concat (map (\<lambda>e. [?op, ?mid, 0, 2, fst e, snd e]) evs)" by (rule vr)
    show "tx_polls s3 = replicate (4 * ?n) Tx_Ready @ trest" by (simp add: s3_def s2_def s1_def)
    show "js' = replicate ?n True @ jrest" by (rule js'_def)
    show "jrest = [] \<or> (\<exists>js'. jrest = False # js')" by (rule Cons.prems(6))
  qed
  show ?case
    unfolding step IH by (simp add: s3_def s2_def s1_def)
qed


lemma train_link_cases:
  "cdns_mhdp_train_link k js s =
     (if fst (cdns_mhdp_training_start k js s) \<noteq> 0 then cdns_mhdp_training_start k js s
      else cdns_mhdp_get_training_status k (snd (cdns_mhdp_training_start k js s)))"
proof -
  obtain r s1 where ts: "cdns_mhdp_training_start k js s = (r, s1)"
    by (cases "cdns_mhdp_training_start k js s") auto
  obtain r2 s2 where gs: "cdns_mhdp_get_training_status k s1 = (r2, s2)"
    by (cases "cdns_mhdp_get_training_status k s1") auto
  show ?thesis
    by (simp add: cdns_mhdp_train_link_def ts gs)
qed

text \<open>
  Claim C4. \<open>cdns_mhdp_train_link\<close> asks for the link status only after
  \<open>cdns_mhdp_training_start\<close> has returned 0. When it returns anything else,
  \<open>cdns_mhdp_train_link\<close> returns the same result in the same device state (nothing is
  sent or read after it) and the link state, rate and lane count, is as before the call.
  It returns 0 only after reading an event whose second byte has the
  equalization-finished flag set; then the status read follows. When every poll of the
  loop is answered by a well-formed event without the flag, until the deadline test
  fails, the result is \<open>-ETIMEDOUT\<close>, and the bytes sent are the start command and one
  event request per poll.
\<close>

theorem train_link_sequence:
  "(fst (cdns_mhdp_training_start k js s) \<noteq> 0 \<longrightarrow>
      cdns_mhdp_train_link k js s = cdns_mhdp_training_start k js s \<and>
      link_rate (snd (cdns_mhdp_train_link k js s)) = link_rate s \<and>
      link_num_lanes (snd (cdns_mhdp_train_link k js s)) = link_num_lanes s) \<and>
   (fst (cdns_mhdp_training_start k js s) = 0 \<longrightarrow>
      cdns_mhdp_train_link k js s =
        cdns_mhdp_get_training_status k (snd (cdns_mhdp_training_start k js s)) \<and>
      (\<exists>pre e0 e1. rx_polls s = pre @ Rx_Data e0 # Rx_Data e1 #
                                   rx_polls (snd (cdns_mhdp_training_start k js s)) \<and>
                    ucast (ucast e1 :: u8) AND EQ_PHASE_FINISHED k \<noteq> 0)) \<and>
   ((\<forall>e\<in>set evs. ucast (snd e) AND EQ_PHASE_FINISHED k = 0) \<and>
    rx_polls s = map Rx_Data vs @ rest \<and>
    map ucast vs =
      concat (map (\<lambda>e. [DPTX_READ_EVENT k, MB_MODULE_ID_DP_TX k, 0, 2, fst e, snd e]) evs) \<and>
    tx_polls s = replicate (5 + 4 * length evs) Tx_Ready @ trest \<and>
    js = replicate (length evs) True @ jrest \<and> (jrest = [] \<or> (\<exists>js'. jrest = False # js')) \<longrightarrow>
      cdns_mhdp_train_link k js s =
        (- ETIMEDOUT,
         s\<lparr>rx_polls := rest, tx_polls := trest,
            wr_data := wr_data s @
              [DPTX_TRAINING_CONTROL k, MB_MODULE_ID_DP_TX k, 0, 1, LINK_TRAINING_RUN k] @
              concat (replicate (length evs) [DPTX_READ_EVENT k, MB_MODULE_ID_DP_TX k, 0, 0])\<rparr>))"
proof -
  let ?mid = "MB_MODULE_ID_DP_TX k"
  obtain r0 s0 where snd0:
    "cdns_mhdp_mailbox_send s ?mid (DPTX_TRAINING_CONTROL k) 1 [LINK_TRAINING_RUN k] = (r0, s0)"
    by (cases "cdns_mhdp_mailbox_send s ?mid (DPTX_TRAINING_CONTROL k) 1 [LINK_TRAINING_RUN k]")
       auto
  from mailbox_send_preserves
         [of s ?mid "DPTX_TRAINING_CONTROL k" 1 "[LINK_TRAINING_RUN k]"] snd0
  have f0: "link_rate s0 = link_rate s" "link_num_lanes s0 = link_num_lanes s"
    "rx_polls s0 = rx_polls s" by auto
  have start: "cdns_mhdp_training_start k js s =
                 (if r0 \<noteq> 0 then (r0, s0) else training_start_loop k js s0)"
    by (simp add: cdns_mhdp_training_start_def snd0)
  have link: "link_rate (snd (cdns_mhdp_training_start k js s)) = link_rate s \<and>
              link_num_lanes (snd (cdns_mhdp_training_start k js s)) = link_num_lanes s"
    unfolding start using f0 training_start_loop_frame [of k js s0] by simp
  have A: "cdns_mhdp_train_link k js s = cdns_mhdp_training_start k js s \<and>
      link_rate (snd (cdns_mhdp_train_link k js s)) = link_rate s \<and>
      link_num_lanes (snd (cdns_mhdp_train_link k js s)) = link_num_lanes s"
    if "fst (cdns_mhdp_training_start k js s) \<noteq> 0"
  proof -
    have "cdns_mhdp_train_link k js s = cdns_mhdp_training_start k js s"
      using that by (simp add: train_link_cases)
    with link show ?thesis by simp
  qed
  have B: "cdns_mhdp_train_link k js s =
        cdns_mhdp_get_training_status k (snd (cdns_mhdp_training_start k js s)) \<and>
      (\<exists>pre e0 e1. rx_polls s = pre @ Rx_Data e0 # Rx_Data e1 #
                                   rx_polls (snd (cdns_mhdp_training_start k js s)) \<and>
                    ucast (ucast e1 :: u8) AND EQ_PHASE_FINISHED k \<noteq> 0)"
    if z: "fst (cdns_mhdp_training_start k js s) = 0"
  proof -
    have "cdns_mhdp_train_link k js s =
            cdns_mhdp_get_training_status k (snd (cdns_mhdp_training_start k js s))"
      using z by (simp add: train_link_cases)
    moreover have "r0 = 0" using z start by (cases "r0 = 0") simp_all
    then have "cdns_mhdp_training_start k js s = training_start_loop k js s0"
      using start by simp
    then have "\<exists>pre e0 e1. rx_polls s = pre @ Rx_Data e0 # Rx_Data e1 #
                                   rx_polls (snd (cdns_mhdp_training_start k js s)) \<and>
                    ucast (ucast e1 :: u8) AND EQ_PHASE_FINISHED k \<noteq> 0"
      using training_start_loop_frame [of k js s0] z f0 by simp
    ultimately show ?thesis by simp
  qed
  have C: "cdns_mhdp_train_link k js s =
        (- ETIMEDOUT,
         s\<lparr>rx_polls := rest, tx_polls := trest,
            wr_data := wr_data s @
              [DPTX_TRAINING_CONTROL k, ?mid, 0, 1, LINK_TRAINING_RUN k] @
              concat (replicate (length evs) [DPTX_READ_EVENT k, ?mid, 0, 0])\<rparr>)"
    if flag: "\<forall>e\<in>set evs. ucast (snd e) AND EQ_PHASE_FINISHED k = 0"
      and rx: "rx_polls s = map Rx_Data vs @ rest"
      and bytes: "map ucast vs =
        concat (map (\<lambda>e. [DPTX_READ_EVENT k, ?mid, 0, 2, fst e, snd e]) evs)"
      and tx: "tx_polls s = replicate (5 + 4 * length evs) Tx_Ready @ trest"
      and js: "js = replicate (length evs) True @ jrest"
      and jrest: "jrest = [] \<or> (\<exists>js'. jrest = False # js')"
  proof -
    define s1 where "s1 = s\<lparr>tx_polls := replicate (4 * length evs) Tx_Ready @ trest,
        wr_data := wr_data s @ [DPTX_TRAINING_CONTROL k, ?mid, 0, 1] @ [LINK_TRAINING_RUN k]\<rparr>"
    have "tx_polls s = replicate 5 Tx_Ready @ replicate (4 * length evs) Tx_Ready @ trest"
      using tx by (simp add: replicate_add [symmetric])
    then have "cdns_mhdp_mailbox_send s ?mid (DPTX_TRAINING_CONTROL k) 1 [LINK_TRAINING_RUN k] =
        (0, s\<lparr>tx_polls := replicate (4 * length evs) Tx_Ready @ trest,
              wr_data := wr_data s @
                [DPTX_TRAINING_CONTROL k, ?mid, ucast (drop_bit 8 (1 :: u16)), ucast (1 :: u16)] @
                [LINK_TRAINING_RUN k]\<rparr>)"
      by (rule mailbox_send_ready [where n = 5]) simp_all
    then have send: "cdns_mhdp_mailbox_send s ?mid (DPTX_TRAINING_CONTROL k) 1
                       [LINK_TRAINING_RUN k] = (0, s1)"
      by (simp add: s1_def)
    have loop: "training_start_loop k js s1 =
        (- ETIMEDOUT,
         s1\<lparr>rx_polls := rest, tx_polls := trest,
             wr_data := wr_data s1 @
               concat (replicate (length evs) [DPTX_READ_EVENT k, ?mid, 0, 0])\<rparr>)"
      by (rule training_start_loop_never_finished [OF flag _ bytes _ js jrest])
         (simp_all add: s1_def rx)
    have st: "cdns_mhdp_training_start k js s =
        (- ETIMEDOUT,
         s\<lparr>rx_polls := rest, tx_polls := trest,
            wr_data := wr_data s @
              [DPTX_TRAINING_CONTROL k, ?mid, 0, 1, LINK_TRAINING_RUN k] @
              concat (replicate (length evs) [DPTX_READ_EVENT k, ?mid, 0, 0])\<rparr>)"
      unfolding cdns_mhdp_training_start_def send
      by (simp add: loop) (simp add: s1_def)
    then have "fst (cdns_mhdp_training_start k js s) \<noteq> 0"
      by (simp add: ETIMEDOUT_nonzero)
    from A [OF this] st show ?thesis by simp
  qed
  show ?thesis using A B C by blast
qed

text \<open>
  Two polls answered without the flag, then the deadline: \<open>-ETIMEDOUT\<close>, the link state
  stays at 162000 and one lane. A first poll answered with the flag: the status read
  follows and sets the link state from the bandwidth code \<open>0x14\<close> and four lanes.
\<close>

theorem train_link_sequence_witness:
  "cdns_mhdp_train_link sample_common_h [True, True, False]
     \<lparr>rx_polls = map Rx_Data [0x0a, 0x01, 0x00, 0x02, 0x00, 0x00,
                                 0x0a, 0x01, 0x00, 0x02, 0x00, 0x01, 0x77],
      tx_polls = replicate 13 Tx_Ready @ [Tx_Ready], wr_data = [],
      link_rate = 162000, link_num_lanes = 1\<rparr>
   = (- ETIMEDOUT,
      \<lparr>rx_polls = [Rx_Data 0x77], tx_polls = [Tx_Ready],
       wr_data = [0x09, 0x01, 0x00, 0x01, 0x02, 0x0a, 0x01, 0x00, 0x00, 0x0a, 0x01, 0x00, 0x00],
       link_rate = 162000, link_num_lanes = 1\<rparr>) \<and>
   cdns_mhdp_train_link sample_common_h [True, True, False]
     \<lparr>rx_polls = map Rx_Data [0x0a, 0x01, 0x00, 0x02, 0x00, 0x02,
                                 0x0b, 0x01, 0x00, 0x0a, 0x14, 0x04, 0, 0, 0, 0, 0, 0, 0, 0],
      tx_polls = replicate 13 Tx_Ready, wr_data = [],
      link_rate = 162000, link_num_lanes = 1\<rparr>
   = (0,
      \<lparr>rx_polls = [], tx_polls = [],
       wr_data = [0x09, 0x01, 0x00, 0x01, 0x02, 0x0a, 0x01, 0x00, 0x00, 0x0b, 0x01, 0x00, 0x00],
       link_rate = 540000, link_num_lanes = 4\<rparr>)"
proof -
  let ?s2 = "\<lparr>rx_polls = map Rx_Data [0x0a, 0x01, 0x00, 0x02, 0x00, 0x02,
                                 0x0b, 0x01, 0x00, 0x0a, 0x14, 0x04, 0, 0, 0, 0, 0, 0, 0, 0],
      tx_polls = replicate 13 Tx_Ready, wr_data = [],
      link_rate = 162000, link_num_lanes = 1\<rparr>"
  have start: "fst (cdns_mhdp_training_start sample_common_h [True, True, False] ?s2) = 0"
    by code_simp
  have status: "cdns_mhdp_get_training_status sample_common_h
                  (snd (cdns_mhdp_training_start sample_common_h [True, True, False] ?s2)) =
      (0, \<lparr>rx_polls = [], tx_polls = [],
       wr_data = [0x09, 0x01, 0x00, 0x01, 0x02, 0x0a, 0x01, 0x00, 0x00, 0x0b, 0x01, 0x00, 0x00],
       link_rate = 540000, link_num_lanes = 4\<rparr>)"
    by code_simp
  have "cdns_mhdp_train_link sample_common_h [True, True, False] ?s2 =
          cdns_mhdp_get_training_status sample_common_h
            (snd (cdns_mhdp_training_start sample_common_h [True, True, False] ?s2))"
    using train_link_sequence
            [where k = sample_common_h and js = "[True, True, False]" and s = ?s2] start
    by blast
  with status have second: "cdns_mhdp_train_link sample_common_h [True, True, False] ?s2 =
      (0, \<lparr>rx_polls = [], tx_polls = [],
       wr_data = [0x09, 0x01, 0x00, 0x01, 0x02, 0x0a, 0x01, 0x00, 0x00, 0x0b, 0x01, 0x00, 0x00],
       link_rate = 540000, link_num_lanes = 4\<rparr>)"
    by simp
  have first: "cdns_mhdp_train_link sample_common_h [True, True, False]
     \<lparr>rx_polls = map Rx_Data [0x0a, 0x01, 0x00, 0x02, 0x00, 0x00,
                                 0x0a, 0x01, 0x00, 0x02, 0x00, 0x01, 0x77],
      tx_polls = replicate 13 Tx_Ready @ [Tx_Ready], wr_data = [],
      link_rate = 162000, link_num_lanes = 1\<rparr>
   = (- ETIMEDOUT,
      \<lparr>rx_polls = [Rx_Data 0x77], tx_polls = [Tx_Ready],
       wr_data = [0x09, 0x01, 0x00, 0x01, 0x02, 0x0a, 0x01, 0x00, 0x00, 0x0a, 0x01, 0x00, 0x00],
       link_rate = 162000, link_num_lanes = 1\<rparr>)"
    using train_link_sequence
            [where k = sample_common_h and js = "[True, True, False]" and s =
               "\<lparr>rx_polls = map Rx_Data [0x0a, 0x01, 0x00, 0x02, 0x00, 0x00,
                                 0x0a, 0x01, 0x00, 0x02, 0x00, 0x01, 0x77],
                 tx_polls = replicate 13 Tx_Ready @ [Tx_Ready], wr_data = [],
                 link_rate = 162000, link_num_lanes = 1\<rparr>"
             and evs = "[(0x00, 0x00), (0x00, 0x01)]" and rest = "[Rx_Data 0x77]"
             and vs = "[0x0a, 0x01, 0x00, 0x02, 0x00, 0x00, 0x0a, 0x01, 0x00, 0x02, 0x00, 0x01]"
             and trest = "[Tx_Ready]" and jrest = "[False]"]
    by (simp add: sample_common_h_def)
  from first second show ?thesis by (rule conjI)
qed

section \<open>The transfer-unit search\<close>

text \<open>
  The arithmetic of the loop over the natural numbers: with a pixel clock that is not
  negative and a divisor \<open>num_lanes * link_rate * 8\<close> that is not zero and fits 32 bits,
  nothing overflows, and the loop computes \<open>valid_symbol_milli\<close>.
\<close>

lemma unat_ucast_u8_u64: "unat (ucast (a :: u8) :: u64) = unat a"
proof -
  have "unat a < 2 ^ 8" using unsigned_less [of a, where 'a = nat] by simp
  then have "unat a < 2 ^ 64" by simp
  then show ?thesis by (simp add: unsigned_ucast_eq take_bit_nat_eq_self)
qed

lemma unat_ucast_u32_u64: "unat (ucast (a :: u32) :: u64) = unat a"
proof -
  have "unat a < 2 ^ 32" using unsigned_less [of a, where 'a = nat] by simp
  then have "unat a < 2 ^ 64" by simp
  then show ?thesis by (simp add: unsigned_ucast_eq take_bit_nat_eq_self)
qed

lemma unat_scast_nonneg:
  assumes "0 \<le> sint (c :: cint)"
  shows "unat (scast c :: u64) = nat (sint c)"
proof -
  define n where "n = nat (sint c)"
  have c: "sint c = int n" using assms by (simp add: n_def)
  have "int n < 2 ^ 31" using sint_lt [of c] c by simp
  then have "n < 2 ^ 31" by (metis of_nat_less_iff of_nat_numeral of_nat_power)
  also have "(2::nat) ^ 31 \<le> 2 ^ 64" by (rule power_increasing) simp_all
  finally have n: "n < 2 ^ LENGTH(64)" by simp
  have "(scast c :: u64) = word_of_nat n"
    unfolding scast_eq c by simp
  then have "unat (scast c :: u64) = n mod 2 ^ LENGTH(64)"
    by (simp only: unat_of_nat)
  also have "\<dots> = n" using n by (rule mod_less)
  finally show ?thesis by (simp only: n_def)
qed

lemma sint_nat_bound:
  assumes "0 \<le> sint (c :: cint)"
  shows "nat (sint c) < 2 ^ 31"
proof -
  have "sint c < 2 ^ 31" using sint_lt [of c] by simp
  then show ?thesis using assms by (simp add: nat_less_iff)
qed

text \<open>The 64-bit product of the loop does not overflow.\<close>

lemma tu_symbol_product:
  assumes "0 \<le> sint (clock :: cint)"
  shows "unat (ucast (tu :: u8) * scast clock * ucast (bpp :: u8) :: u64) =
           unat tu * nat (sint clock) * unat bpp"
proof -
  let ?t = "unat tu" and ?c = "nat (sint clock)" and ?b = "unat bpp"
  have t: "?t \<le> 255" using unsigned_less [of tu, where 'a = nat] by simp
  have b: "?b \<le> 255" using unsigned_less [of bpp, where 'a = nat] by simp
  have c: "?c \<le> 2147483647" using sint_nat_bound [OF assms] by simp
  have "?t * ?c \<le> 255 * 2147483647" using t c by (rule mult_le_mono)
  then have tc: "?t * ?c < 2 ^ LENGTH(64)" by simp
  have "unat (ucast tu :: u64) * unat (scast clock :: u64) < 2 ^ LENGTH(64)"
    using tc by (simp only: unat_ucast_u8_u64 unat_scast_nonneg [OF assms])
  then have p1: "unat (ucast tu * scast clock :: u64) = ?t * ?c"
    by (simp only: unat_mult_lem [THEN iffD1] unat_ucast_u8_u64 unat_scast_nonneg [OF assms])
  have "?t * ?c * ?b \<le> (255 * 2147483647) * 255"
    using \<open>?t * ?c \<le> 255 * 2147483647\<close> b by (rule mult_le_mono)
  then have tcb: "?t * ?c * ?b < 2 ^ LENGTH(64)" by simp
  have "unat (ucast tu * scast clock :: u64) * unat (ucast bpp :: u64) < 2 ^ LENGTH(64)"
    using tcb by (simp only: p1 unat_ucast_u8_u64)
  then show ?thesis
    by (simp only: unat_mult_lem [THEN iffD1] p1 unat_ucast_u8_u64)
qed

lemma tu_divisor:
  assumes "unat (lanes :: u32) * unat (rate :: u32) * 8 < 2 ^ 32"
  shows "unat (lanes * rate * 8) = unat lanes * unat rate * 8"
proof -
  have "unat lanes * unat rate < 2 ^ LENGTH(32)" using assms by simp
  then have p1: "unat (lanes * rate) = unat lanes * unat rate"
    by (simp only: unat_mult_lem [THEN iffD1])
  have "unat (lanes * rate) * unat (8 :: u32) < 2 ^ LENGTH(32)"
    using assms by (simp add: p1)
  then have "unat (lanes * rate * 8) = unat (lanes * rate) * unat (8 :: u32)"
    by (simp only: unat_mult_lem [THEN iffD1])
  then show ?thesis by (simp add: p1)
qed


lemma tu_loop_step:
  fixes tsr bpp :: u8 and clock :: cint and lanes rate :: u32
  defines "t \<equiv> unat tsr + 2"
  defines "vs \<equiv> valid_symbol_milli t (nat (sint clock)) (unat bpp) (unat lanes) (unat rate)"
  assumes clock: "0 \<le> sint clock"
    and d0: "0 < unat lanes * unat rate"
    and d1: "unat lanes * unat rate * 8 < 2 ^ 32"
    and base: "unat tsr < 254"
  shows "\<exists>symbol rem rejected.
           unat (tsr + 2) = t \<and> unat symbol = vs div 1000 \<and> unat rem = vs mod 1000 \<and>
           (rejected \<longrightarrow>
              \<not> tu_accepted t (nat (sint clock)) (unat bpp) (unat lanes) (unat rate)) \<and>
           (\<not> rejected \<and> vs div 1000 \<le> t \<longrightarrow>
              tu_accepted t (nat (sint clock)) (unat bpp) (unat lanes) (unat rate)) \<and>
           config_video_tu_loop tsr clock bpp lanes rate =
             (if 64 < t then Tu_Error (- EINVAL)
              else if rejected then config_video_tu_loop (tsr + 2) clock bpp lanes rate
              else Tu_Found (tsr + 2) symbol rem)"
proof -
  define tu where "tu = tsr + 2"
  define symbol0 :: u64 where "symbol0 = ucast tu * scast clock * ucast bpp"
  define divisor :: u32 where "divisor = lanes * rate * 8"
  define symbol1 where "symbol1 = symbol0 div ucast divisor"
  define rem :: u32 where "rem = ucast (symbol1 mod 1000)"
  define symbol where "symbol = symbol1 div 1000"
  define rejected where
    "rejected \<longleftrightarrow> symbol \<le> 1 \<or> ucast tu - symbol < 4 \<or> rem > 850 \<or> rem < 100"
  have eq: "config_video_tu_loop tsr clock bpp lanes rate =
      (if divisor = 0 then Tu_Divide_Error
       else if tu > 64 then Tu_Error (- EINVAL)
       else if rejected then config_video_tu_loop tu clock bpp lanes rate
       else Tu_Found tu symbol rem)"
    by (subst config_video_tu_loop.simps)
       (simp add: Let_def tu_def symbol0_def divisor_def symbol1_def rem_def symbol_def
          rejected_def)
  have "unat tsr + unat (2 :: u8) < 2 ^ LENGTH(8)" using base by simp
  then have "unat (tsr + 2) = unat tsr + unat (2 :: u8)"
    by (simp only: unat_add_lem [THEN iffD1])
  then have ut: "unat tu = t" by (simp add: tu_def t_def)
  have ud: "unat divisor = unat lanes * unat rate * 8"
    unfolding divisor_def by (rule tu_divisor [OF d1])
  then have "unat divisor \<noteq> 0" using d0 by simp
  then have dz: "divisor \<noteq> 0" by (metis unat_0)
  have u0: "unat symbol0 = t * nat (sint clock) * unat bpp"
    unfolding symbol0_def ut [symmetric] by (rule tu_symbol_product [OF clock])
  have u1: "unat symbol1 = vs"
    unfolding symbol1_def vs_def valid_symbol_milli_def
    by (simp only: unat_div unat_ucast_u32_u64 u0 ud)
  have k: "unat (1000 :: u64) = 1000" by simp
  have us: "unat symbol = vs div 1000"
    unfolding symbol_def by (simp only: unat_div u1 k)
  have um: "unat (symbol1 mod 1000) = vs mod 1000"
    by (simp only: unat_mod u1 k)
  have "vs mod 1000 < 2 ^ 32"
  proof -
    have "vs mod 1000 < 1000" by simp
    also have "(1000::nat) < 2 ^ 32" by simp
    finally show ?thesis .
  qed
  then have ur: "unat rem = vs mod 1000"
    unfolding rem_def by (simp add: unsigned_ucast_eq um take_bit_nat_eq_self)
  have gt: "tu > 64 \<longleftrightarrow> 64 < t"
    by (simp add: word_less_nat_alt ut)
  have res: "config_video_tu_loop tsr clock bpp lanes rate =
             (if 64 < t then Tu_Error (- EINVAL)
              else if rejected then config_video_tu_loop tu clock bpp lanes rate
              else Tu_Found tu symbol rem)"
    using eq dz gt by simp
  have acc: "tu_accepted t (nat (sint clock)) (unat bpp) (unat lanes) (unat rate) \<longleftrightarrow>
          1 < vs div 1000 \<and> 4 \<le> int t - int (vs div 1000) \<and>
          100 \<le> vs mod 1000 \<and> vs mod 1000 \<le> 850"
    unfolding tu_accepted_def vs_def [symmetric] Let_def by simp
  have rej: "rejected \<longleftrightarrow>
               \<not> tu_accepted t (nat (sint clock)) (unat bpp) (unat lanes) (unat rate)"
    if le: "vs div 1000 \<le> t"
  proof -
    have c1: "symbol \<le> 1 \<longleftrightarrow> vs div 1000 \<le> 1"
      by (simp add: word_le_nat_alt us)
    have "unat symbol \<le> unat (ucast tu :: u64)"
      using le by (simp only: us unat_ucast_u8_u64 ut)
    then have sle: "symbol \<le> ucast tu" by (simp only: word_le_nat_alt)
    have "unat (ucast tu - symbol) = t - vs div 1000"
      by (simp only: unat_sub [OF sle] unat_ucast_u8_u64 ut us)
    then have c2: "ucast tu - symbol < 4 \<longleftrightarrow> t - vs div 1000 < 4"
      by (simp add: word_less_nat_alt)
    have c3: "rem > 850 \<longleftrightarrow> 850 < vs mod 1000"
      by (simp add: word_less_nat_alt ur)
    have c4: "rem < 100 \<longleftrightarrow> vs mod 1000 < 100"
      by (simp add: word_less_nat_alt ur)
    show ?thesis
      unfolding rejected_def c1 c2 c3 c4 acc using le by auto
  qed
  have wrap: "\<not> tu_accepted t (nat (sint clock)) (unat bpp) (unat lanes) (unat rate)"
    if "\<not> vs div 1000 \<le> t"
    unfolding acc using that by simp
  have r1: "rejected \<longrightarrow> \<not> tu_accepted t (nat (sint clock)) (unat bpp) (unat lanes) (unat rate)"
    using rej wrap by blast
  have r2: "\<not> rejected \<and> vs div 1000 \<le> t \<longrightarrow>
              tu_accepted t (nat (sint clock)) (unat bpp) (unat lanes) (unat rate)"
    using rej by blast
  from ut us ur r1 r2 res show ?thesis unfolding tu_def by blast
qed

text \<open>
  Claim C2, as the code has it. The claim as stated fails at the bounds of the remainder:
  the code refuses a size when the remainder is above 850 or below 100, so it accepts the
  remainders 100 and 850 themselves.
\<close>

text \<open>
  With a pixel clock of 137250 at 24 bits per pixel on four lanes at 5.4 Gbit/s, the size
  32 gives the valid-symbol value 6.100: the code accepts 32, where the test with strict
  bounds refuses 32 and accepts 34.
\<close>

theorem tu_search_remainder_counterexample:
  "config_video_tu_loop 30 137250 24 4 540 = Tu_Found 32 6 100 \<and>
   valid_symbol_milli 32 137250 24 4 540 = 6100 \<and>
   \<not> tu_accepted_strict 32 137250 24 4 540 \<and>
   tu_accepted_strict 34 137250 24 4 540"
proof -
  have "config_video_tu_loop 30 137250 24 4 540 = Tu_Found 32 6 100"
    by code_simp
  moreover have "valid_symbol_milli 32 137250 24 4 540 = 6100"
    by (simp add: valid_symbol_milli_def)
  moreover have "\<not> tu_accepted_strict 32 137250 24 4 540"
    by (simp add: tu_accepted_strict_def valid_symbol_milli_def)
  moreover have "tu_accepted_strict 34 137250 24 4 540"
    by (simp add: tu_accepted_strict_def valid_symbol_milli_def)
  ultimately show ?thesis by blast
qed

text \<open>
  Claim C2, amended. For every pixel clock that is not negative, every bits-per-pixel,
  lane count and link rate whose divisor is not zero and fits 32 bits, and a base below
  254: the search examines the sizes base + 2, base + 4, ... up to 64. When it accepts a
  size, that size is at most 64, \<open>symbol\<close> and \<open>rem\<close> are the integer part and the
  remainder of its valid-symbol value, every smaller size examined fails the test
  (integer part above 1, size minus integer part at least 4, remainder from 100 to 850,
  bounds included), and the accepted size passes the test provided its integer part does
  not exceed it. When the search fails, it fails with \<open>-EINVAL\<close> and no size up to 64
  passes the test. The division is never by zero.
\<close>

theorem tu_search_smallest:
  fixes base bpp :: u8 and clock :: cint and lanes rate :: u32
  assumes clock: "0 \<le> sint clock"
    and d0: "0 < unat lanes * unat rate"
    and d1: "unat lanes * unat rate * 8 < 2 ^ 32"
    and base: "unat base < 254"
  shows "(\<forall>tu symbol rem.
            config_video_tu_loop base clock bpp lanes rate = Tu_Found tu symbol rem \<longrightarrow>
              unat base < unat tu \<and> unat tu \<le> 64 \<and> even (unat tu - unat base) \<and>
              unat symbol =
                valid_symbol_milli (unat tu) (nat (sint clock)) (unat bpp) (unat lanes) (unat rate)
                  div 1000 \<and>
              unat rem =
                valid_symbol_milli (unat tu) (nat (sint clock)) (unat bpp) (unat lanes) (unat rate)
                  mod 1000 \<and>
              (unat symbol \<le> unat tu \<longrightarrow>
                 tu_accepted (unat tu) (nat (sint clock)) (unat bpp) (unat lanes) (unat rate)) \<and>
              (\<forall>t. unat base < t \<and> t < unat tu \<and> even (t - unat base) \<longrightarrow>
                 \<not> tu_accepted t (nat (sint clock)) (unat bpp) (unat lanes) (unat rate))) \<and>
         (\<forall>e. config_video_tu_loop base clock bpp lanes rate = Tu_Error e \<longrightarrow>
              e = - EINVAL \<and>
              (\<forall>t. unat base < t \<and> t \<le> 64 \<and> even (t - unat base) \<longrightarrow>
                 \<not> tu_accepted t (nat (sint clock)) (unat bpp) (unat lanes) (unat rate))) \<and>
         config_video_tu_loop base clock bpp lanes rate \<noteq> Tu_Divide_Error"
  using base
proof (induction "66 - unat base" arbitrary: base rule: less_induct)
  case less
  let ?C = "nat (sint clock)" and ?B = "unat bpp" and ?L = "unat lanes" and ?R = "unat rate"
  let ?t = "unat base + 2"
  let ?vs = "valid_symbol_milli ?t ?C ?B ?L ?R"
  from tu_loop_step [OF clock d0 d1 less.prems, of bpp]
  obtain symbol rem rejected where
    ut: "unat (base + 2) = ?t" and us: "unat symbol = ?vs div 1000"
    and ur: "unat rem = ?vs mod 1000"
    and r1: "rejected \<Longrightarrow> \<not> tu_accepted ?t ?C ?B ?L ?R"
    and r2: "\<not> rejected \<Longrightarrow> ?vs div 1000 \<le> ?t \<Longrightarrow> tu_accepted ?t ?C ?B ?L ?R"
    and step: "config_video_tu_loop base clock bpp lanes rate =
             (if 64 < ?t then Tu_Error (- EINVAL)
              else if rejected then config_video_tu_loop (base + 2) clock bpp lanes rate
              else Tu_Found (base + 2) symbol rem)"
    by blast
  have none_between: "\<not> (unat base < t \<and> t < ?t \<and> even (t - unat base))" for t
    by presburger
  consider (over) "64 < ?t" | (found) "?t \<le> 64" "\<not> rejected" | (again) "?t \<le> 64" "rejected"
    by fastforce
  then show ?case
  proof cases
    case over
    then have res: "config_video_tu_loop base clock bpp lanes rate = Tu_Error (- EINVAL)"
      using step by simp
    have nc: "\<not> (unat base < t \<and> t \<le> 64 \<and> even (t - unat base))" for t
      using over by presburger
    show ?thesis unfolding res
    proof (intro conjI allI impI)
      fix e
      assume "Tu_Error (- EINVAL) = Tu_Error e"
      then show "e = - EINVAL" by simp
    next
      fix t
      assume "unat base < t \<and> t \<le> 64 \<and> even (t - unat base)"
      with nc [of t] show "\<not> tu_accepted t ?C ?B ?L ?R" by blast
    qed simp_all
  next
    case found
    then have res: "config_video_tu_loop base clock bpp lanes rate = Tu_Found (base + 2) symbol rem"
      using step by simp
    show ?thesis
      unfolding res
    proof (intro conjI allI impI)
      fix tu symbol' rem'
      assume "Tu_Found (base + 2) symbol rem = Tu_Found tu symbol' rem'"
      then have e: "tu = base + 2" "symbol' = symbol" "rem' = rem" by simp_all
      show "unat base < unat tu" unfolding e ut by simp
      show "unat tu \<le> 64" unfolding e ut by (rule found(1))
      show "even (unat tu - unat base)" unfolding e ut by simp
      show "unat symbol' = valid_symbol_milli (unat tu) ?C ?B ?L ?R div 1000"
        unfolding e ut by (rule us)
      show "unat rem' = valid_symbol_milli (unat tu) ?C ?B ?L ?R mod 1000"
        unfolding e ut by (rule ur)
      show "tu_accepted (unat tu) ?C ?B ?L ?R" if "unat symbol' \<le> unat tu"
        using that r2 [OF found(2)] unfolding e ut us by blast
      show "\<not> tu_accepted t ?C ?B ?L ?R"
        if "unat base < t \<and> t < unat tu \<and> even (t - unat base)" for t
        using that none_between [of t] unfolding e ut by blast
    qed simp_all
  next
    case again
    then have res: "config_video_tu_loop base clock bpp lanes rate =
                 config_video_tu_loop (base + 2) clock bpp lanes rate"
      using step by simp
    have m: "66 - unat (base + 2) < 66 - unat base" using ut again(1) by simp
    have b: "unat (base + 2) < 254" using ut again(1) by simp
    note IH = less.hyps [OF m b]
    have na: "\<not> tu_accepted ?t ?C ?B ?L ?R" using r1 again(2) by simp
    have split: "t = ?t \<or> (?t < t \<and> even (t - ?t))"
      if "unat base < t" "even (t - unat base)" for t
      using that by presburger
    have ev: "even (u - unat base)" if "?t < u" "even (u - ?t)" for u
      using that by presburger
    show ?thesis
      unfolding res
    proof (intro conjI allI impI)
      fix tu symbol rem
      assume f: "config_video_tu_loop (base + 2) clock bpp lanes rate = Tu_Found tu symbol rem"
      from IH f have
        i1: "?t < unat tu" "unat tu \<le> 64" "even (unat tu - ?t)"
        and i2: "unat symbol = valid_symbol_milli (unat tu) ?C ?B ?L ?R div 1000"
          "unat rem = valid_symbol_milli (unat tu) ?C ?B ?L ?R mod 1000"
        and i3: "unat symbol \<le> unat tu \<Longrightarrow> tu_accepted (unat tu) ?C ?B ?L ?R"
        and i4: "\<And>t. ?t < t \<Longrightarrow> t < unat tu \<Longrightarrow> even (t - ?t) \<Longrightarrow>
                   \<not> tu_accepted t ?C ?B ?L ?R"
        unfolding ut by blast+
      show "unat base < unat tu" using i1 by simp
      show "unat tu \<le> 64" by (rule i1)
      show "even (unat tu - unat base)" using i1 ev by blast
      show "unat symbol = valid_symbol_milli (unat tu) ?C ?B ?L ?R div 1000" by (rule i2)
      show "unat rem = valid_symbol_milli (unat tu) ?C ?B ?L ?R mod 1000" by (rule i2)
      show "tu_accepted (unat tu) ?C ?B ?L ?R" if "unat symbol \<le> unat tu"
        using i3 that by blast
      show "\<not> tu_accepted t ?C ?B ?L ?R"
        if "unat base < t \<and> t < unat tu \<and> even (t - unat base)" for t
        using split [of t] that na i4 [of t] by blast
    next
      fix e
      assume f: "config_video_tu_loop (base + 2) clock bpp lanes rate = Tu_Error e"
      from IH f have j1: "e = - EINVAL"
        and j2: "\<And>t. ?t < t \<Longrightarrow> t \<le> 64 \<Longrightarrow> even (t - ?t) \<Longrightarrow> \<not> tu_accepted t ?C ?B ?L ?R"
        unfolding ut by blast+
      show "e = - EINVAL" by (rule j1)
      show "\<not> tu_accepted t ?C ?B ?L ?R"
        if "unat base < t \<and> t \<le> 64 \<and> even (t - unat base)" for t
        using split [of t] that na j2 [of t] by blast
    next
      show "config_video_tu_loop (base + 2) clock bpp lanes rate \<noteq> Tu_Divide_Error"
        using IH by blast
    qed
  qed
qed

text \<open>
  A pixel clock of 25175 on four lanes at 5.4 Gbit/s: the sizes 32 to 60 are refused, 62
  is accepted with the value 2.167. A pixel clock of 1000: no size up to 64 passes, the
  search fails.
\<close>

theorem tu_search_smallest_witness:
  "config_video_tu_loop 30 25175 24 4 540 = Tu_Found 62 2 167 \<and>
   tu_accepted 62 25175 24 4 540 \<and> \<not> tu_accepted 60 25175 24 4 540 \<and>
   config_video_tu_loop 30 1000 24 4 540 = Tu_Error (- EINVAL) \<and>
   \<not> tu_accepted 64 1000 24 4 540"
proof -
  have h: "0 \<le> sint (25175 :: cint)" "0 \<le> sint (1000 :: cint)"
    "0 < unat (4 :: u32) * unat (540 :: u32)"
    "unat (4 :: u32) * unat (540 :: u32) * 8 < 2 ^ 32" "unat (30 :: u8) < 254"
    by simp_all
  have f: "config_video_tu_loop 30 25175 24 4 540 = Tu_Found 62 2 167"
    by code_simp
  have e: "config_video_tu_loop 30 1000 24 4 540 = Tu_Error (- EINVAL)"
    by code_simp
  note A = tu_search_smallest [OF h(1) h(3) h(4) h(5), of 24]
  note B = tu_search_smallest [OF h(2) h(3) h(4) h(5), of 24]
  from A f have "(unat (2 :: u64) \<le> unat (62 :: u8) \<longrightarrow>
      tu_accepted (unat (62 :: u8)) (nat (sint (25175 :: cint))) (unat (24 :: u8))
        (unat (4 :: u32)) (unat (540 :: u32))) \<and>
     (\<forall>t. unat (30 :: u8) < t \<and> t < unat (62 :: u8) \<and> even (t - unat (30 :: u8)) \<longrightarrow>
        \<not> tu_accepted t (nat (sint (25175 :: cint))) (unat (24 :: u8))
            (unat (4 :: u32)) (unat (540 :: u32)))"
    by blast
  then have a: "tu_accepted 62 25175 24 4 540 \<and> \<not> tu_accepted 60 25175 24 4 540"
    by simp
  from B e have "\<forall>t. unat (30 :: u8) < t \<and> t \<le> 64 \<and> even (t - unat (30 :: u8)) \<longrightarrow>
        \<not> tu_accepted t (nat (sint (1000 :: cint))) (unat (24 :: u8))
            (unat (4 :: u32)) (unat (540 :: u32))"
    by blast
  then have b: "\<not> tu_accepted 64 1000 24 4 540"
    by simp
  from f a e b show ?thesis by blast
qed

text \<open>
  The amended claim leaves out an accepted size whose integer part exceeds it. There the
  code departs from its own comment (a size is to be refused when \<open>TU < VS + 4\<close>): the
  subtraction \<open>tu_size_reg - symbol\<close> is unsigned and wraps, so the margin test passes.
  A pixel clock of 148500 on one lane at 1.62 Gbit/s: the size 34 is accepted with the
  value 93.500.
\<close>

lemma tu_search_margin_wraps:
  "config_video_tu_loop 30 148500 24 1 162 = Tu_Found 34 93 500 \<and>
   valid_symbol_milli 34 148500 24 1 162 = 93500 \<and>
   \<not> tu_accepted 34 148500 24 1 162"
proof -
  have "config_video_tu_loop 30 148500 24 1 162 = Tu_Found 34 93 500"
    by code_simp
  moreover have "valid_symbol_milli 34 148500 24 1 162 = 93500"
    by (simp add: valid_symbol_milli_def)
  moreover have "\<not> tu_accepted 34 148500 24 1 162"
    by (simp add: tu_accepted_def valid_symbol_milli_def)
  ultimately show ?thesis by blast
qed

section \<open>Fetching an EDID block\<close>

text \<open>
  Claim C3 at an input where the code departs from it. Block 2 (half-block index 1) of 128
  bytes is requested; each of the four responses passes the validation and is read
  completely, but echoes the half-block index 0. After the fourth attempt the loop ends
  with \<open>ret\<close> still 0 from the last read, and the function returns 0, with the data of the
  other block in the buffer, where the claim has it return an error.
\<close>

theorem get_edid_block_exhausted_success:
  "cdns_mhdp_get_edid_block sample_common_h
     \<lparr>rx_polls = concat (replicate 4
                   (map Rx_Data ([0x02, 0x01, 0x00, 0x82, 0x80, 0x00] @ replicate 128 0x5a))),
      tx_polls = replicate 24 Tx_Ready, wr_data = [], link_rate = 0, link_num_lanes = 0\<rparr>
     (replicate 128 0) 2 128
   = (0, replicate 128 0x5a,
      \<lparr>rx_polls = [], tx_polls = [],
       wr_data = concat (replicate 4 [0x02, 0x01, 0x00, 0x02, 0x01, 0x00]),
       link_rate = 0, link_num_lanes = 0\<rparr>)"
  by code_simp

section \<open>Validating a response header\<close>

text \<open>
  What the draining loop consumes, in terms of the number \<open>m\<close> of polls of the empty flag
  that deliver a byte before the first one that times out.
\<close>

lemma mailbox_drain_loop_char:
  "mailbox_drain_loop n s =
     (let m = length (takeWhile (\<lambda>p. p \<noteq> Rx_Empty) (rx_polls s)) in
      s\<lparr>rx_polls := drop (if n \<le> m then n else Suc m) (rx_polls s)\<rparr>)"
proof (induction n arbitrary: s)
  case 0
  show ?case by simp
next
  case (Suc n)
  show ?case
  proof (cases "rx_polls s")
    case Nil
    then show ?thesis
      by (simp add: cdns_mhdp_mailbox_read_def neg_ETIMEDOUT_negative)
  next
    case (Cons p ps)
    show ?thesis
    proof (cases p)
      case (Rx_Data v)
      with Cons show ?thesis
        by (simp add: cdns_mhdp_mailbox_read_def and_ff_not_negative Suc.IH Let_def)
    next
      case Rx_Empty
      with Cons show ?thesis
        by (simp add: cdns_mhdp_mailbox_read_def neg_ETIMEDOUT_negative)
    qed
  qed
qed

text \<open>
  Claim C1, as the code has it. The claim as stated fails when a read of the draining
  loop times out: the loop ends at that read (\<open>if (... < 0) break\<close>), so fewer bytes than
  the header declares are read.
\<close>

text \<open>
  A response declaring three payload bytes, refused because length 8 was expected. The
  mailbox delivers one payload byte, then stays empty for a whole poll: the draining ends
  there, after one byte, with \<open>-EINVAL\<close>; the two bytes that arrive later are left in
  the mailbox.
\<close>

theorem validate_receive_drain_counterexample:
  "cdns_mhdp_mailbox_validate_receive
     \<lparr>rx_polls = [Rx_Data 0x07, Rx_Data 0x0a, Rx_Data 0x00, Rx_Data 0x03, Rx_Data 0x11, Rx_Empty,
                  Rx_Data 0x22, Rx_Data 0x33],
      tx_polls = [], wr_data = [], link_rate = 0, link_num_lanes = 0\<rparr> 0x0a 0x07 0x0008
   = (- EINVAL,
      \<lparr>rx_polls = [Rx_Data 0x22, Rx_Data 0x33],
       tx_polls = [], wr_data = [], link_rate = 0, link_num_lanes = 0\<rparr>)"
  by code_simp

text \<open>
  Claim C1, amended. Take any module, opcode and expected length. When the mailbox
  delivers four header bytes, \<open>cdns_mhdp_mailbox_validate_receive\<close> reads exactly these;
  the declared length is the big-endian value of the last two. If opcode, module and
  length all match, the result is 0 and nothing but the four header polls has been
  consumed. If a field differs, the result is \<open>-EINVAL\<close>, and the payload has been
  drained: exactly the declared number of bytes when the mailbox delivers that many, and
  otherwise the bytes up to the first read that times out, where the draining stops. When
  one of the four header reads times out, the result is that error and nothing more is
  read. Nothing is written.
\<close>

theorem validate_receive_drains:
  "(rx_polls s = Rx_Data va # Rx_Data vb # Rx_Data vc # Rx_Data vd # rest \<longrightarrow>
      cdns_mhdp_mailbox_validate_receive s module_id opcode req_size =
        (let declared = (push_bit 8 (ucast (ucast vc :: u8)) OR ucast (ucast vd :: u8) :: u16);
             m = length (takeWhile (\<lambda>p. p \<noteq> Rx_Empty) rest)
         in if opcode = ucast va \<and> module_id = ucast vb \<and> req_size = declared
            then (0, s\<lparr>rx_polls := rest\<rparr>)
            else (- EINVAL,
                  s\<lparr>rx_polls := drop (if unat declared \<le> m then unat declared else Suc m) rest\<rparr>))) \<and>
   (rx_polls s = map Rx_Data vs @ ps \<and> length vs < 4 \<and> (ps = [] \<or> (\<exists>ps'. ps = Rx_Empty # ps')) \<longrightarrow>
      cdns_mhdp_mailbox_validate_receive s module_id opcode req_size =
        (- ETIMEDOUT, s\<lparr>rx_polls := tl ps\<rparr>))"
proof (intro conjI impI)
  assume hdr: "rx_polls s = Rx_Data va # Rx_Data vb # Rx_Data vc # Rx_Data vd # rest"
  define declared :: u16 where
    "declared = push_bit 8 (ucast (ucast vc :: u8)) OR ucast (ucast vd :: u8)"
  define s1 where "s1 = s\<lparr>rx_polls := rest\<rparr>"
  have rd: "mailbox_read_loop 4 0 [0, 0, 0, 0] s = (0, [ucast va, ucast vb, ucast vc, ucast vd], s1)"
    unfolding s1_def by (rule validate_receive_read_header [OF hdr])
  have val: "cdns_mhdp_mailbox_validate_receive s module_id opcode req_size =
      (if opcode = ucast va \<and> module_id = ucast vb \<and> req_size = declared
       then (0, s1) else (- EINVAL, mailbox_drain_loop (unat declared) s1))"
    unfolding cdns_mhdp_mailbox_validate_receive_def rd
    by (simp add: get_unaligned_be16_def declared_def ucast_u16_u32_eq unat_ucast_u16_u32
        word_sless_alt Let_def)
  have drain: "mailbox_drain_loop (unat declared) s1 =
      s\<lparr>rx_polls := drop (if unat declared \<le> length (takeWhile (\<lambda>p. p \<noteq> Rx_Empty) rest)
                          then unat declared
                          else Suc (length (takeWhile (\<lambda>p. p \<noteq> Rx_Empty) rest))) rest\<rparr>"
    unfolding mailbox_drain_loop_char Let_def by (simp add: s1_def)
  show "cdns_mhdp_mailbox_validate_receive s module_id opcode req_size =
        (let declared = (push_bit 8 (ucast (ucast vc :: u8)) OR ucast (ucast vd :: u8) :: u16);
             m = length (takeWhile (\<lambda>p. p \<noteq> Rx_Empty) rest)
         in if opcode = ucast va \<and> module_id = ucast vb \<and> req_size = declared
            then (0, s\<lparr>rx_polls := rest\<rparr>)
            else (- EINVAL,
                  s\<lparr>rx_polls := drop (if unat declared \<le> m then unat declared else Suc m) rest\<rparr>))"
    unfolding Let_def declared_def [symmetric] val drain by (simp add: s1_def)
next
  assume a: "rx_polls s = map Rx_Data vs @ ps \<and> length vs < 4 \<and>
             (ps = [] \<or> (\<exists>ps'. ps = Rx_Empty # ps'))"
  then have "fst (mailbox_read_loop 4 0 [0, 0, 0, 0] s) = - ETIMEDOUT \<and>
             snd (snd (mailbox_read_loop 4 0 [0, 0, 0, 0] s)) = s\<lparr>rx_polls := tl ps\<rparr>"
    by (intro mailbox_read_loop_first_timeout) blast+
  then show "cdns_mhdp_mailbox_validate_receive s module_id opcode req_size =
        (- ETIMEDOUT, s\<lparr>rx_polls := tl ps\<rparr>)"
    unfolding cdns_mhdp_mailbox_validate_receive_def
    by (cases "mailbox_read_loop 4 0 [0, 0, 0, 0] s") (simp add: neg_ETIMEDOUT_negative)
qed

text \<open>
  A response with opcode 7, module 10 and declared length 2, followed by three bytes:
  expected with length 2 it is accepted and the three bytes stay; expected with length 8 it
  is refused and two bytes are drained. A header that stops after two bytes.
\<close>

theorem validate_receive_drains_witness:
  "cdns_mhdp_mailbox_validate_receive
     \<lparr>rx_polls = [Rx_Data 0x07, Rx_Data 0x0a, Rx_Data 0x00, Rx_Data 0x02, Rx_Data 0x11, Rx_Data 0x22,
                  Rx_Data 0x33],
      tx_polls = [], wr_data = [], link_rate = 0, link_num_lanes = 0\<rparr> 0x0a 0x07 0x0002
   = (0, \<lparr>rx_polls = [Rx_Data 0x11, Rx_Data 0x22, Rx_Data 0x33],
          tx_polls = [], wr_data = [], link_rate = 0, link_num_lanes = 0\<rparr>) \<and>
   cdns_mhdp_mailbox_validate_receive
     \<lparr>rx_polls = [Rx_Data 0x07, Rx_Data 0x0a, Rx_Data 0x00, Rx_Data 0x02, Rx_Data 0x11, Rx_Data 0x22,
                  Rx_Data 0x33],
      tx_polls = [], wr_data = [], link_rate = 0, link_num_lanes = 0\<rparr> 0x0a 0x07 0x0008
   = (- EINVAL, \<lparr>rx_polls = [Rx_Data 0x33],
          tx_polls = [], wr_data = [], link_rate = 0, link_num_lanes = 0\<rparr>) \<and>
   cdns_mhdp_mailbox_validate_receive
     \<lparr>rx_polls = [Rx_Data 0x07, Rx_Data 0x0a, Rx_Empty, Rx_Data 0x02],
      tx_polls = [], wr_data = [], link_rate = 0, link_num_lanes = 0\<rparr> 0x0a 0x07 0x0002
   = (- ETIMEDOUT, \<lparr>rx_polls = [Rx_Data 0x02],
          tx_polls = [], wr_data = [], link_rate = 0, link_num_lanes = 0\<rparr>)"
  using validate_receive_drains
          [where s = "\<lparr>rx_polls = [Rx_Data 0x07, Rx_Data 0x0a, Rx_Data 0x00, Rx_Data 0x02,
                                     Rx_Data 0x11, Rx_Data 0x22, Rx_Data 0x33],
                        tx_polls = [], wr_data = [], link_rate = 0, link_num_lanes = 0\<rparr>"
             and va = 7 and vb = 10 and vc = 0 and vd = 2
             and rest = "[Rx_Data 0x11, Rx_Data 0x22, Rx_Data 0x33]"
             and opcode = 7 and module_id = 10 and req_size = 2]
        validate_receive_drains
          [where s = "\<lparr>rx_polls = [Rx_Data 0x07, Rx_Data 0x0a, Rx_Data 0x00, Rx_Data 0x02,
                                     Rx_Data 0x11, Rx_Data 0x22, Rx_Data 0x33],
                        tx_polls = [], wr_data = [], link_rate = 0, link_num_lanes = 0\<rparr>"
             and va = 7 and vb = 10 and vc = 0 and vd = 2
             and rest = "[Rx_Data 0x11, Rx_Data 0x22, Rx_Data 0x33]"
             and opcode = 7 and module_id = 10 and req_size = 8]
        validate_receive_drains
          [where s = "\<lparr>rx_polls = [Rx_Data 0x07, Rx_Data 0x0a, Rx_Empty, Rx_Data 0x02],
                        tx_polls = [], wr_data = [], link_rate = 0, link_num_lanes = 0\<rparr>"
             and vs = "[7, 10]" and ps = "[Rx_Empty, Rx_Data 0x02]"
             and opcode = 7 and module_id = 10 and req_size = 2]
  by (simp add: Let_def)

end
